theory Spec2Isabelle
  imports Main "HOL-Library.Word"
begin

unbundle bit_operations_syntax

section \<open>Constants and types of dist.h\<close>

text \<open>
  A C \<open>int\<close> is a 32-bit word, read as two's complement where its sign matters;
  \<open>unsigned int\<close> is the same word read by \<open>unat\<close>. A \<open>char *\<close> that may be
  \<open>NULL\<close> is a \<open>string option\<close>; a NULL-terminated \<open>char **\<close> is a \<open>string list\<close>.
\<close>

type_synonym cint = "32 word"

definition BIND_REPLACE :: cint where "BIND_REPLACE = 0"
definition BIND_BEFORE :: cint where "BIND_BEFORE = 1"
definition BIND_AFTER :: cint where "BIND_AFTER = 2"
definition BIND_CREATE :: cint where "BIND_CREATE = 4"

definition BIND_MAX :: nat where "BIND_MAX = 256"

text \<open>
  \<open>struct Bind\<close>: the link \<open>n\<close> is the tail of the list that holds the entry, so a
  bucket of \<open>bindtab\<close> is a \<open>Bind list\<close> in chain order.
\<close>

record Bind =
  bind_from :: string
  bind_to :: string
  bind_mode :: cint

text \<open>The module's static data: \<open>bindtab[BIND_MAX]\<close> and \<open>nbinds\<close>.\<close>

record table =
  bindtab :: "nat \<Rightarrow> Bind list"
  nbinds :: cint

section \<open>The bind table\<close>

text \<open>\<open>pathhash\<close>: \<open>h = h * 31 + (unsigned char)*s++\<close> in 32-bit arithmetic, then \<open>% BIND_MAX\<close>.\<close>

definition pathhash :: "string \<Rightarrow> nat" where
  "pathhash s = unat (fold (\<lambda>c h. h * 31 + of_nat (of_char c)) s (0 :: 32 word)) mod BIND_MAX"

text \<open>\<open>find_bind\<close>: the first entry of the bucket whose \<open>to\<close> is the mountpoint.\<close>

definition find_bind :: "table \<Rightarrow> string \<Rightarrow> Bind option" where
  "find_bind t to = find (\<lambda>b. bind_to b = to) (bindtab t (pathhash to))"

text \<open>The replace loop of \<open>add_bind\<close>: unlink and free every entry of the chain at \<open>to\<close>.\<close>

fun unlink_all :: "string \<Rightarrow> Bind list \<Rightarrow> Bind list" where
  "unlink_all to [] = []"
| "unlink_all to (b # bs) = (if bind_to b = to then unlink_all to bs else b # unlink_all to bs)"

text \<open>
  \<open>add_bind\<close>. In the \<open>BIND_AFTER\<close> branch the walk starts at the entry found and follows
  \<open>n\<close> to the last link, which is the last link of the bucket: the new entry is hung at
  the end of the whole chain.
\<close>

definition add_bind :: "string \<Rightarrow> string \<Rightarrow> cint \<Rightarrow> table \<Rightarrow> Bind \<times> table" where
  "add_bind frm to m t =
     (let h = pathhash to;
          b = \<lparr>bind_from = frm, bind_to = to,
               bind_mode = m AND (BIND_BEFORE OR BIND_AFTER OR BIND_REPLACE)\<rparr>;
          chain = bindtab t h;
          chain' =
            (case find_bind t to of
               Some existing \<Rightarrow>
                 if m AND BIND_BEFORE \<noteq> 0 then b # chain
                 else if m AND BIND_AFTER \<noteq> 0 then chain @ [b]
                 else b # unlink_all to chain
             | None \<Rightarrow> b # chain)
      in (b, t\<lparr>bindtab := (bindtab t)(h := chain'), nbinds := nbinds t + 1\<rparr>))"

text \<open>
  The loop of \<open>remove_bind\<close> over one chain, with the running \<open>nbinds\<close>: it returns the
  chain left, the counter and \<open>found\<close>. With a \<open>from\<close> it stops at the first match.
\<close>

fun remove_walk :: "string option \<Rightarrow> string \<Rightarrow> Bind list \<Rightarrow> cint \<Rightarrow> Bind list \<times> cint \<times> bool" where
  "remove_walk frm to [] n = ([], n, False)"
| "remove_walk frm to (b # bs) n =
     (if bind_to b = to \<and> (frm = None \<or> frm = Some (bind_from b)) then
        (if frm \<noteq> None then (bs, n - 1, True)
         else (case remove_walk frm to bs (n - 1) of (bs', n', _) \<Rightarrow> (bs', n', True)))
      else (case remove_walk frm to bs n of (bs', n', f) \<Rightarrow> (b # bs', n', f)))"

definition remove_bind :: "string option \<Rightarrow> string \<Rightarrow> table \<Rightarrow> bool \<times> table" where
  "remove_bind frm to t =
     (let h = pathhash to in
      case remove_walk frm to (bindtab t h) (nbinds t) of
        (chain', n', found) \<Rightarrow> (found, t\<lparr>bindtab := (bindtab t)(h := chain'), nbinds := n'\<rparr>))"

definition ns_lookup :: "table \<Rightarrow> string \<Rightarrow> Bind option" where
  "ns_lookup t mountpoint = find_bind t mountpoint"

definition ns_count :: "table \<Rightarrow> int" where
  "ns_count t = sint (nbinds t)"

definition dist_init :: table where
  "dist_init = \<lparr>bindtab = (\<lambda>i. []), nbinds = 0\<rparr>"

text \<open>What the table holds: the entries of all \<open>BIND_MAX\<close> buckets, in the order \<open>ns\<close> walks them.\<close>

definition entries :: "table \<Rightarrow> Bind list" where
  "entries t = concat (map (bindtab t) [0..<BIND_MAX])"

section \<open>The process and its environment\<close>

text \<open>
  What the builtins ask of the operating system and of the host shell is a record of
  answers, one record for each invocation of a builtin. \<open>stat_os\<close> is the file system as
  \<open>stat\<close> sees it (\<open>None\<close> when \<open>stat\<close> fails) and is updated by the calls of the
  process itself; \<open>realpath_os\<close> is the answer of \<open>realpath\<close>, which every builtin
  asks after its last change to the file system; \<open>run_os\<close> is the wait status that
  \<open>rc_wait4\<close> delivers for a forked command, \<open>None\<close> when \<open>rc_fork\<close> fails.
  \<open>RC\<close> (the message prefix macro of rc.h), \<open>dashex\<close> (the shell's \<open>-x\<close> flag) and
  \<open>fmtS\<close> (the \<open>%S\<close> conversion of rc's \<open>fprint\<close>) belong to the host shell and are
  parameters here. \<open>envbuf0\<close> is what the uninitialised array \<open>envbuf\<close> of \<open>b_cpu\<close>
  happens to hold, read as a C string.
\<close>

datatype ftype = Dir | Fifo | Sock | Reg

datatype mkdir_res = MkOk | MkEEXIST | MkErr

datatype setpgid_res = PgOk | PgEPERM | PgErr

record os =
  RC :: string
  dashex :: bool
  fmtS :: "string \<Rightarrow> string"
  linux :: bool
  stat_os :: "string \<Rightarrow> ftype option"
  mkdir_os :: "string \<Rightarrow> mkdir_res"
  mkfifo_os :: "string \<Rightarrow> bool"
  realpath_os :: "string \<Rightarrow> string option"
  readdir_os :: "string \<Rightarrow> string list option"
  proc_mounts_os :: "string list option"
  strerror_os :: "string \<Rightarrow> string"
  run_os :: "string list \<Rightarrow> cint option"
  fork_os :: "nat option"
  setpgid_os :: setpgid_res
  unshare_os :: bool
  envbuf0 :: string

text \<open>What a builtin does that is seen from outside, in order.\<close>

datatype event =
    Print nat string
  | Uerror string
  | Exec "string list"
  | Spawn "string list"

datatype rcstatus = Truth bool | WaitStatus cint

text \<open>
  The state of the shell process: the bind table, the status set by \<open>set\<close> and
  \<open>setstatus\<close>, the shell variables, \<open>environ\<close>, the open file descriptors, and the
  trace of what was printed and executed.
\<close>

record shell =
  tab :: table
  status :: rcstatus
  vars :: "string \<Rightarrow> string list option"
  environ :: "string list"
  fds :: "nat set"
  trace :: "event list"

definition nl :: string where "nl = [CHR 0x0A]"

definition emit :: "event \<Rightarrow> shell \<Rightarrow> shell" where
  "emit e sh = sh\<lparr>trace := trace sh @ [e]\<rparr>"

definition fprint :: "nat \<Rightarrow> string \<Rightarrow> shell \<Rightarrow> shell" where
  "fprint fd s sh = emit (Print fd s) sh"

definition set_status :: "bool \<Rightarrow> shell \<Rightarrow> shell" where
  "set_status b sh = sh\<lparr>status := Truth b\<rparr>"

text \<open>The common ending of a failing builtin: a diagnostic on descriptor 2 and \<open>set(FALSE)\<close>.\<close>

definition fail :: "string \<Rightarrow> shell \<Rightarrow> shell" where
  "fail msg sh = set_status False (fprint 2 msg sh)"

definition varassign :: "string \<Rightarrow> string list \<Rightarrow> shell \<Rightarrow> shell" where
  "varassign name val sh = sh\<lparr>vars := (vars sh)(name \<mapsto> val)\<rparr>"

text \<open>\<open>varlookup\<close> gives the list of a variable, \<open>NULL\<close> for an unset or empty one.\<close>

definition varlookup :: "shell \<Rightarrow> string \<Rightarrow> string list" where
  "varlookup sh name = (case vars sh name of None \<Rightarrow> [] | Some ws \<Rightarrow> ws)"

section \<open>Internal helpers\<close>

text \<open>The fallback of \<open>cleanpath\<close>: strip trailing slashes, but not the root.\<close>

function strip_slashes :: "string \<Rightarrow> string" where
  "strip_slashes s = (if 1 < length s \<and> last s = CHR ''/'' then strip_slashes (butlast s) else s)"
  by pat_completeness auto
termination
  by (relation "measure length") auto

definition cleanpath :: "os \<Rightarrow> string option \<Rightarrow> string" where
  "cleanpath os path =
     (case path of
        None \<Rightarrow> ''.''
      | Some p \<Rightarrow>
          if p = [] then ''.''
          else (case realpath_os os p of
                  Some resolved \<Rightarrow> resolved
                | None \<Rightarrow> strip_slashes p))"

definition isdir :: "os \<Rightarrow> string \<Rightarrow> bool" where
  "isdir os path = (stat_os os path = Some Dir)"

definition ensuredir :: "string \<Rightarrow> cint \<Rightarrow> os \<Rightarrow> cint \<times> os" where
  "ensuredir path m os =
     (if isdir os path then (0, os)
      else if m AND BIND_CREATE \<noteq> 0 then
        (case mkdir_os os path of
           MkOk \<Rightarrow> (0, os\<lparr>stat_os := (stat_os os)(path \<mapsto> Dir)\<rparr>)
         | MkEEXIST \<Rightarrow> (0, os)
         | MkErr \<Rightarrow> (- 1, os))
      else (- 1, os))"

text \<open>
  \<open>run_cmd\<close>: fork, exec, wait. The child never returns into the shell; the parent gets
  the wait status, or \<open>-1\<close> after \<open>uerror("fork")\<close>.
\<close>

definition run_cmd :: "os \<Rightarrow> string list \<Rightarrow> shell \<Rightarrow> cint \<times> shell" where
  "run_cmd os argv sh =
     (case run_os os argv of
        None \<Rightarrow> (- 1, emit (Uerror ''fork'') sh)
      | Some st \<Rightarrow> (st, emit (Exec argv) sh))"

text \<open>\<open>WIFEXITED(stat) && WEXITSTATUS(stat) == 0\<close>, with the macros of \<open>sys/wait.h\<close>.\<close>

definition WIFEXITED :: "cint \<Rightarrow> bool" where
  "WIFEXITED st = (st AND 0x7f = 0)"

definition WEXITSTATUS :: "cint \<Rightarrow> cint" where
  "WEXITSTATUS st = drop_bit 8 (st AND 0xff00)"

definition exited_ok :: "cint \<Rightarrow> bool" where
  "exited_ok st = (WIFEXITED st \<and> WEXITSTATUS st = 0)"

text \<open>
  A forked command fails when \<open>run_cmd\<close> does not deliver the status of a normal exit
  with code 0: \<open>rc_fork\<close> failed, or the command was killed or exited with another code.
\<close>

definition cmd_fails :: "os \<Rightarrow> string list \<Rightarrow> bool" where
  "cmd_fails os argv = (case run_os os argv of None \<Rightarrow> True | Some st \<Rightarrow> \<not> exited_ok st)"

section \<open>Namespace resolution\<close>

definition ns_resolve :: "os \<Rightarrow> table \<Rightarrow> string option \<Rightarrow> string option" where
  "ns_resolve os t path =
     (case path of
        None \<Rightarrow> None
      | Some p \<Rightarrow>
          (let clean = cleanpath os (Some p); h = pathhash clean in
           case find (\<lambda>b. bind_to b = clean) (bindtab t h) of
             Some b \<Rightarrow> Some (bind_from b)
           | None \<Rightarrow> Some p))"

section \<open>Option parsing\<close>

text \<open>
  Every builtin but \<open>cpu\<close> and \<open>rfork\<close> starts with the same two loops: over the
  arguments that begin with \<open>-\<close>, and over the letters of each. \<open>flag_letters\<close> is the
  inner loop around the builtin's \<open>switch\<close>, \<open>Inl c\<close> its \<open>default:\<close> branch at the
  letter \<open>c\<close>; \<open>flag_args\<close> is the outer loop and returns the arguments left.
\<close>

fun flag_letters :: "(char \<Rightarrow> 'a \<Rightarrow> 'a option) \<Rightarrow> string \<Rightarrow> 'a \<Rightarrow> char + 'a" where
  "flag_letters sw [] m = Inr m"
| "flag_letters sw (c # f) m =
     (case sw c m of None \<Rightarrow> Inl c | Some m' \<Rightarrow> flag_letters sw f m')"

fun flag_args :: "(char \<Rightarrow> 'a \<Rightarrow> 'a option) \<Rightarrow> string list \<Rightarrow> 'a \<Rightarrow> char + ('a \<times> string list)" where
  "flag_args sw [] m = Inr (m, [])"
| "flag_args sw (a # av) m =
     (if a \<noteq> [] \<and> hd a = CHR ''-'' then
        (case flag_letters sw (tl a) m of
           Inl c \<Rightarrow> Inl c
         | Inr m' \<Rightarrow> flag_args sw av m')
      else Inr (m, a # av))"

text \<open>The \<open>switch\<close> of \<open>bind\<close> and \<open>import\<close>; \<open>mount\<close> has the letter \<open>n\<close> besides.\<close>

definition mode_flag :: "char \<Rightarrow> cint \<Rightarrow> cint option" where
  "mode_flag c m =
     (if c = CHR ''a'' then Some ((m AND NOT BIND_BEFORE) OR BIND_AFTER)
      else if c = CHR ''b'' then Some ((m AND NOT BIND_AFTER) OR BIND_BEFORE)
      else if c = CHR ''c'' then Some (m OR BIND_CREATE)
      else None)"

definition mount_flag :: "char \<Rightarrow> cint \<Rightarrow> cint option" where
  "mount_flag c m = (if c = CHR ''n'' then Some m else mode_flag c m)"

datatype mount_err = MissingSpec | UnknownFlag char

text \<open>The argument loop of \<open>mount\<close>: \<open>-s\<close> takes the next argument as \<open>spec\<close>.\<close>

fun mount_args ::
  "string list \<Rightarrow> cint \<Rightarrow> string option \<Rightarrow> mount_err + (cint \<times> string option \<times> string list)" where
  "mount_args [] m spec = Inr (m, spec, [])"
| "mount_args [a] m spec =
     (if a \<noteq> [] \<and> hd a = CHR ''-'' then
        (if tl a = ''s'' then Inl MissingSpec
         else (case flag_letters mount_flag (tl a) m of
                 Inl c \<Rightarrow> Inl (UnknownFlag c)
               | Inr m' \<Rightarrow> Inr (m', spec, [])))
      else Inr (m, spec, [a]))"
| "mount_args (a # s # av) m spec =
     (if a \<noteq> [] \<and> hd a = CHR ''-'' then
        (if tl a = ''s'' then mount_args av m (Some s)
         else (case flag_letters mount_flag (tl a) m of
                 Inl c \<Rightarrow> Inl (UnknownFlag c)
               | Inr m' \<Rightarrow> mount_args (s # av) m' spec))
      else Inr (m, spec, a # s # av))"

section \<open>bind, addns\<close>

definition b_bind :: "os \<Rightarrow> string list \<Rightarrow> shell \<Rightarrow> shell \<times> os" where
  "b_bind os av sh =
     (case flag_args mode_flag (tl av) BIND_REPLACE of
        Inl c \<Rightarrow> (fail (RC os @ ''bind: unknown flag -'' @ [c] @ nl) sh, os)
      | Inr (m, args) \<Rightarrow>
          (case args of
             frm # to # rest \<Rightarrow>
               if rest \<noteq> [] then (fail (RC os @ ''bind: too many arguments'' @ nl) sh, os)
               else if \<not> isdir os frm \<and> stat_os os frm = None then
                 (fail (RC os @ ''bind: '' @ frm @ '': '' @ strerror_os os frm @ nl) sh, os)
               else
                 (case ensuredir to m os of
                    (r, os1) \<Rightarrow>
                      if r \<noteq> 0 \<and> \<not> isdir os1 to \<and> stat_os os1 to = None then
                        (fail (RC os @ ''bind: '' @ to @ '': '' @ strerror_os os to @ nl) sh, os1)
                      else
                        (let cfrom = cleanpath os1 (Some frm);
                             cto = cleanpath os1 (Some to);
                             sh1 = sh\<lparr>tab := snd (add_bind cfrom cto m (tab sh))\<rparr>;
                             sh2 = varassign ''ns_bind_last'' [cfrom @ '' '' @ cto] sh1;
                             sh3 = (if dashex os then
                                      fprint 2 (''bind '' @
                                        (if m AND BIND_BEFORE \<noteq> 0 then ''-b ''
                                         else if m AND BIND_AFTER \<noteq> 0 then ''-a '' else []) @
                                        cfrom @ '' '' @ cto @ '' '' @ nl) sh2
                                    else sh2)
                         in (set_status True sh3, os1)))
           | _ \<Rightarrow> (fail (RC os @ ''usage: bind [-abc] from to'' @ nl) sh, os)))"

definition b_addns :: "os \<Rightarrow> string list \<Rightarrow> shell \<Rightarrow> shell \<times> os" where
  "b_addns os av sh =
     (case av of
        a0 # frm # to # rest \<Rightarrow> b_bind os [''bind'', ''-a'', frm, to] sh
      | _ \<Rightarrow> (fail (RC os @ ''usage: addns from to'' @ nl) sh, os))"

section \<open>mount, import, unmount\<close>

text \<open>The common success ending of \<open>mount\<close> and \<open>import\<close>: clean both paths, add the entry, \<open>set(TRUE)\<close>.\<close>

definition record_bind :: "os \<Rightarrow> string \<Rightarrow> string \<Rightarrow> cint \<Rightarrow> shell \<Rightarrow> shell" where
  "record_bind os addr mp m sh =
     set_status True
       (sh\<lparr>tab := snd (add_bind (cleanpath os (Some addr)) (cleanpath os (Some mp)) m (tab sh))\<rparr>)"

text \<open>The last strategy of \<open>mount\<close>: \<open>mount [-t spec] addr mountpoint\<close>.\<close>

definition try_system_mount ::
  "os \<Rightarrow> string \<Rightarrow> string \<Rightarrow> cint \<Rightarrow> string option \<Rightarrow> shell \<Rightarrow> shell" where
  "try_system_mount os addr mountpoint m spec sh =
     (case run_cmd os
             ([''mount''] @ (case spec of None \<Rightarrow> [] | Some s \<Rightarrow> [''-t'', s]) @ [addr, mountpoint]) sh of
        (st, sh1) \<Rightarrow>
          if exited_ok st then record_bind os addr mountpoint m sh1
          else fail (RC os @ ''mount: failed to mount '' @ addr @ '' on '' @ mountpoint @ nl) sh1)"

text \<open>
  \<open>b_mount\<close>. The copy of the host name into \<open>host[256]\<close> is never read again and has no
  counterpart here. Arguments after the mountpoint are not looked at.
\<close>

definition b_mount :: "os \<Rightarrow> string list \<Rightarrow> shell \<Rightarrow> shell \<times> os" where
  "b_mount os av sh =
     (case mount_args (tl av) BIND_REPLACE None of
        Inl MissingSpec \<Rightarrow> (fail (RC os @ ''mount: -s requires argument'' @ nl) sh, os)
      | Inl (UnknownFlag c) \<Rightarrow> (fail (RC os @ ''mount: unknown flag -'' @ [c] @ nl) sh, os)
      | Inr (m, spec, args) \<Rightarrow>
          (case args of
             addr # mountpoint # rest \<Rightarrow>
               (case ensuredir mountpoint (m OR BIND_CREATE) os of
                  (r, os1) \<Rightarrow>
                    if r \<noteq> 0 then
                      (fail (RC os @ ''mount: cannot create '' @ mountpoint @ '': '' @
                             strerror_os os mountpoint @ nl) sh, os1)
                    else if CHR '':'' \<in> set addr \<and> CHR ''/'' \<in> set addr then
                      (case run_cmd os1
                              ([''sshfs'', addr, mountpoint, ''-o'', ''reconnect,ServerAliveInterval=15''] @
                               (case spec of None \<Rightarrow> [] | Some s \<Rightarrow> [''-o'', s])) sh of
                         (st, sh1) \<Rightarrow>
                           if exited_ok st then (record_bind os1 addr mountpoint m sh1, os1)
                           else (try_system_mount os1 addr mountpoint m spec
                                   (fprint 2 (RC os @ ''mount: sshfs failed, trying mount(8)'' @ nl) sh1),
                                 os1))
                    else (try_system_mount os1 addr mountpoint m spec sh, os1))
           | _ \<Rightarrow> (fail (RC os @ ''usage: mount [-abc] [-s spec] address mountpoint'' @ nl) sh, os)))"

definition b_import :: "os \<Rightarrow> string list \<Rightarrow> shell \<Rightarrow> shell \<times> os" where
  "b_import os av sh =
     (case flag_args mode_flag (tl av) BIND_REPLACE of
        Inl c \<Rightarrow> (fail (RC os @ ''import: unknown flag -'' @ [c] @ nl) sh, os)
      | Inr (m, args) \<Rightarrow>
          (case args of
             host # path # rest \<Rightarrow>
               (let mp = (case rest of [] \<Rightarrow> path | x # xs \<Rightarrow> x) in
                case ensuredir mp (m OR BIND_CREATE) os of
                  (r, os1) \<Rightarrow>
                    if r \<noteq> 0 then
                      (fail (RC os @ ''import: cannot create '' @ mp @ '': '' @
                             strerror_os os mp @ nl) sh, os1)
                    else
                      (let addr = take 4095 (host @ '':'' @ path);
                           sh0 = (if dashex os then
                                    fprint 2 (''import '' @ host @ '' '' @ path @ '' -> '' @ mp @ nl) sh
                                  else sh)
                       in case run_cmd os1 [''sshfs'', addr, mp, ''-o'',
                                 ''reconnect,ServerAliveInterval=15,follow_symlinks''] sh0 of
                            (st, sh1) \<Rightarrow>
                              if exited_ok st then (record_bind os1 addr mp m sh1, os1)
                              else
                                (case run_cmd os1 [''9pfuse'', addr, mp] sh1 of
                                   (st2, sh2) \<Rightarrow>
                                     if exited_ok st2 then (record_bind os1 addr mp m sh2, os1)
                                     else (fail (RC os @ ''import: could not import '' @ path @
                                                 '' from '' @ host @ nl) sh2, os1))))
           | _ \<Rightarrow> (fail (RC os @ ''usage: import [-abc] host path [mountpoint]'' @ nl) sh, os)))"

text \<open>\<open>b_unmount\<close> after its argument checks; \<open>mp\<close> goes to \<open>remove_bind\<close> as typed.\<close>

definition unmount_at :: "os \<Rightarrow> string option \<Rightarrow> string \<Rightarrow> shell \<Rightarrow> shell" where
  "unmount_at os frm mp sh =
     (case remove_bind frm mp (tab sh) of
        (found, t') \<Rightarrow>
          (case run_cmd os [''umount'', mp] (sh\<lparr>tab := t'\<rparr>) of
             (st, sh1) \<Rightarrow>
               (case (if found \<or> exited_ok st then (True, sh1)
                      else (case run_cmd os [''fusermount'', ''-u'', mp] sh1 of
                              (st2, sh2) \<Rightarrow> (exited_ok st2, sh2))) of
                  (found2, sh2) \<Rightarrow>
                    if found2 then
                      set_status True
                        (if dashex os then
                           fprint 2 (''unmount '' @ (case frm of None \<Rightarrow> [] | Some f \<Rightarrow> f) @ mp @ nl) sh2
                         else sh2)
                    else fail (RC os @ ''unmount: '' @ mp @ '': not mounted'' @ nl) sh2)))"

definition b_unmount :: "os \<Rightarrow> string list \<Rightarrow> shell \<Rightarrow> shell" where
  "b_unmount os av sh =
     (case tl av of
        [] \<Rightarrow> fail (RC os @ ''usage: unmount [from] mountpoint'' @ nl) sh
      | [mp] \<Rightarrow> unmount_at os None mp sh
      | frm # mp # rest \<Rightarrow>
          if rest \<noteq> [] then fail (RC os @ ''unmount: too many arguments'' @ nl) sh
          else unmount_at os (Some frm) mp sh)"

section \<open>ns\<close>

definition ns_flag :: "char \<Rightarrow> bool \<Rightarrow> bool option" where
  "ns_flag c r = (if c = CHR ''r'' then Some True else None)"

definition mstr :: "cint \<Rightarrow> string" where
  "mstr m = (if m AND BIND_BEFORE \<noteq> 0 then ''before''
             else if m AND BIND_AFTER \<noteq> 0 then ''after''
             else ''replace'')"

definition ns_line :: "os \<Rightarrow> bool \<Rightarrow> Bind \<Rightarrow> string" where
  "ns_line os recreate b =
     (if recreate then
        ''bind '' @
        (if bind_mode b AND BIND_BEFORE \<noteq> 0 then ''-b ''
         else if bind_mode b AND BIND_AFTER \<noteq> 0 then ''-a '' else []) @
        fmtS os (bind_from b) @ '' '' @ fmtS os (bind_to b) @ nl
      else
        fmtS os (bind_from b) @ [CHR 0x09] @ fmtS os (bind_to b) @ [CHR 0x09] @
        ''('' @ mstr (bind_mode b) @ '')'' @ nl)"

definition b_ns :: "os \<Rightarrow> string list \<Rightarrow> shell \<Rightarrow> shell" where
  "b_ns os av sh =
     (case flag_args ns_flag (tl av) False of
        Inl c \<Rightarrow> fail (RC os @ ''ns: unknown flag -'' @ [c] @ nl) sh
      | Inr (recreate, args) \<Rightarrow>
          if args \<noteq> [] then fail (RC os @ ''usage: ns [-r]'' @ nl) sh
          else
            (let bs = entries (tab sh);
                 sh1 = fold (\<lambda>b. fprint 1 (ns_line os recreate b)) bs sh;
                 sh2 = (if bs = [] \<and> \<not> recreate then
                          (case proc_mounts_os os of
                             Some chunks \<Rightarrow>
                               fold (fprint 1) chunks (fprint 1 (''# system mounts:'' @ nl) sh1)
                           | None \<Rightarrow> snd (run_cmd os [''mount''] sh1))
                        else sh1)
             in set_status True sh2))"

section \<open>cpu\<close>

text \<open>
  The two character arrays of \<open>b_cpu\<close> are filled by calls of the form
  \<open>len += snprintf(buf + len, sizeof(buf) - len, ...)\<close>. A buffer is its content as a C
  string together with the running \<open>len\<close>. \<open>snprintf\<close> stores at most \<open>size - 1\<close>
  characters and returns the length of the whole output, so \<open>len\<close> can pass the size of
  the array; the next call then forms a pointer beyond the array and a size that wraps
  around, which is undefined behaviour: \<open>Inl BufferOverrun\<close>.
\<close>

datatype fault = BufferOverrun

type_synonym cbuf = "string \<times> nat"

definition snprintf_at :: "nat \<Rightarrow> string \<Rightarrow> cbuf \<Rightarrow> fault + cbuf" where
  "snprintf_at sz s bl =
     (case bl of
        (buf, len) \<Rightarrow>
          if sz < len then Inl BufferOverrun
          else Inr (if len < sz then take len buf @ take (sz - 1 - len) s else buf,
                    len + length s))"

fun snprintf_all :: "nat \<Rightarrow> string list \<Rightarrow> cbuf \<Rightarrow> fault + cbuf" where
  "snprintf_all sz [] bl = Inr bl"
| "snprintf_all sz (s # ss) bl =
     (case snprintf_at sz s bl of
        Inl e \<Rightarrow> Inl e
      | Inr bl' \<Rightarrow> snprintf_all sz ss bl')"

text \<open>The outputs of the \<open>"%s%s"\<close> calls over \<open>$path\<close>: each word, with a colon unless it is the last.\<close>

fun path_pieces :: "string list \<Rightarrow> string list" where
  "path_pieces [] = []"
| "path_pieces [w] = [w]"
| "path_pieces (w # v # ws) = (w @ '':'') # path_pieces (v # ws)"

text \<open>Quote args with spaces: a space or a tab in the argument puts it between single quotes.\<close>

definition cpu_quote :: "string \<Rightarrow> string" where
  "cpu_quote p =
     (if CHR '' '' \<in> set p \<or> CHR 0x09 \<in> set p then [CHR 0x27] @ p @ [CHR 0x27] else p)"

text \<open>The outputs of the calls in the loop over the command: a space before every argument but the first.\<close>

fun cmd_pieces :: "bool \<Rightarrow> string list \<Rightarrow> string list" where
  "cmd_pieces first [] = []"
| "cmd_pieces first (p # ps) =
     (if first then [] else ['' '']) @ [cpu_quote p] @ cmd_pieces False ps"

text \<open>
  \<open>remote_cmd\<close>: \<open>envbuf\<close> (written only when \<open>$path\<close> is set), copied into \<open>cmdbuf\<close> by
  the first \<open>snprintf\<close>, then the command.
\<close>

definition remote_command :: "os \<Rightarrow> shell \<Rightarrow> string list \<Rightarrow> fault + string" where
  "remote_command os sh av =
     (case (if varlookup sh ''path'' = [] then Inr (envbuf0 os, 0)
            else snprintf_all 8192
                   ([''PATH=''] @ path_pieces (varlookup sh ''path'') @ [''; '']) ([], 0)) of
        Inl e \<Rightarrow> Inl e
      | Inr (envbuf, envlen) \<Rightarrow>
          (case snprintf_all 4096 (cmd_pieces True av) (take 4095 envbuf, length envbuf) of
             Inl e \<Rightarrow> Inl e
           | Inr (cmdbuf, cmdlen) \<Rightarrow> Inr cmdbuf))"

datatype cpu_err = NeedsArg char | BadFlag char

text \<open>The argument loop of \<open>cpu\<close>: only the first letter of an option is looked at.\<close>

fun cpu_args ::
  "string list \<Rightarrow> string option \<Rightarrow> string option \<Rightarrow> bool \<Rightarrow>
   cpu_err + (string option \<times> string option \<times> bool \<times> string list)" where
  "cpu_args [] host user fa = Inr (host, user, fa, [])"
| "cpu_args [a] host user fa =
     (if a \<noteq> [] \<and> hd a = CHR ''-'' then
        (case tl a of
           [] \<Rightarrow> Inl (BadFlag (CHR 0x00))
         | c # val \<Rightarrow>
             if c = CHR ''h'' then
               (if val \<noteq> [] then Inr (Some val, user, fa, []) else Inl (NeedsArg c))
             else if c = CHR ''u'' then
               (if val \<noteq> [] then Inr (host, Some val, fa, []) else Inl (NeedsArg c))
             else if c = CHR ''A'' then Inr (host, user, True, [])
             else Inl (BadFlag c))
      else Inr (host, user, fa, [a]))"
| "cpu_args (a # x # av) host user fa =
     (if a \<noteq> [] \<and> hd a = CHR ''-'' then
        (case tl a of
           [] \<Rightarrow> Inl (BadFlag (CHR 0x00))
         | c # val \<Rightarrow>
             if c = CHR ''h'' then
               (if val \<noteq> [] then cpu_args (x # av) (Some val) user fa
                else cpu_args av (Some x) user fa)
             else if c = CHR ''u'' then
               (if val \<noteq> [] then cpu_args (x # av) host (Some val) fa
                else cpu_args av host (Some x) fa)
             else if c = CHR ''A'' then cpu_args (x # av) host user True
             else Inl (BadFlag c))
      else Inr (host, user, fa, a # x # av))"

text \<open>\<open>b_cpu\<close>; \<open>sigchk\<close> at its end belongs to the host shell.\<close>

definition b_cpu :: "os \<Rightarrow> string list \<Rightarrow> shell \<Rightarrow> fault + shell" where
  "b_cpu os av sh =
     (case cpu_args (tl av) None None False of
        Inl (NeedsArg c) \<Rightarrow> Inr (fail (RC os @ ''cpu: -'' @ [c] @ '' requires argument'' @ nl) sh)
      | Inl (BadFlag c) \<Rightarrow> Inr (fail (RC os @ ''cpu: unknown flag -'' @ [c] @ nl) sh)
      | Inr (host0, user, fa, args) \<Rightarrow>
          (case (case host0 of
                   Some h \<Rightarrow> Some h
                 | None \<Rightarrow> (case varlookup sh ''cpu'' of [] \<Rightarrow> None | w # ws \<Rightarrow> Some w)) of
             None \<Rightarrow> Inr (fail (RC os @ ''cpu: no host specified (use -h or set $cpu)'' @ nl) sh)
           | Some host \<Rightarrow>
               if args = [] then
                 Inr (fail (RC os @ ''usage: cpu [-h host] [-u user] [-A] cmd [args...]'' @ nl) sh)
               else
                 (case remote_command os sh args of
                    Inl e \<Rightarrow> Inl e
                  | Inr remote_cmd \<Rightarrow>
                      (let sshcmd = [''ssh''] @ (if fa then [''-A''] else []) @
                                    [''-o'', ''BatchMode=yes''] @
                                    (case user of None \<Rightarrow> [] | Some u \<Rightarrow> [''-l'', u]) @
                                    [host, remote_cmd];
                           sh1 = (if dashex os then
                                    fprint 2 nl
                                      (fold (\<lambda>a. fprint 2 ('' '' @ a)) sshcmd (fprint 2 ''cpu:'' sh))
                                  else sh)
                       in case run_cmd os sshcmd sh1 of
                            (st, sh2) \<Rightarrow> Inr (sh2\<lparr>status := WaitStatus st\<rparr>)))))"

section \<open>srv\<close>

definition SRV_DIR :: string where "SRV_DIR = ''/tmp/rc-srv''"

definition ensure_srvdir :: "os \<Rightarrow> os" where
  "ensure_srvdir os =
     (if stat_os os SRV_DIR = None then
        (case mkdir_os os SRV_DIR of
           MkOk \<Rightarrow> os\<lparr>stat_os := (stat_os os)(SRV_DIR \<mapsto> Dir)\<rparr>
         | _ \<Rightarrow> os)
      else os)"

definition unlink :: "string \<Rightarrow> os \<Rightarrow> os" where
  "unlink path os = os\<lparr>stat_os := (stat_os os)(path := None)\<rparr>"

definition srv_flag :: "char \<Rightarrow> bool \<Rightarrow> bool option" where
  "srv_flag c r = (if c = CHR ''r'' then Some True else None)"

text \<open>\<open>nprint("%d", pid)\<close> for a pid, which is positive in the parent.\<close>

function dec :: "nat \<Rightarrow> string" where
  "dec n = (if n < 10 then [char_of (48 + n)] else dec (n div 10) @ [char_of (48 + n mod 10)])"
  by pat_completeness auto
termination
  by (relation "measure id") auto

text \<open>The \<open>readdir\<close> loop of the listing, with \<open>found\<close>.\<close>

fun srv_list :: "os \<Rightarrow> string list \<Rightarrow> shell \<Rightarrow> bool \<Rightarrow> shell \<times> bool" where
  "srv_list os [] sh found = (sh, found)"
| "srv_list os (name # ents) sh found =
     (if name \<noteq> [] \<and> hd name = CHR ''.'' then srv_list os ents sh found
      else
        (case stat_os os (take 4095 (SRV_DIR @ ''/'' @ name)) of
           None \<Rightarrow> srv_list os ents sh found
         | Some k \<Rightarrow>
             srv_list os ents
               (fprint 1 (name @ [CHR 0x09] @ take 4095 (SRV_DIR @ ''/'' @ name) @ [CHR 0x09] @
                          ''('' @ (case k of Fifo \<Rightarrow> ''fifo'' | Sock \<Rightarrow> ''sock'' | _ \<Rightarrow> ''file'') @
                          '')'' @ nl) sh)
               True))"

text \<open>
  \<open>b_srv\<close>. The forked child that opens the FIFO and executes the command is the event
  \<open>Spawn\<close>; the parent does not wait for it.
\<close>

definition b_srv :: "os \<Rightarrow> string list \<Rightarrow> shell \<Rightarrow> shell \<times> os" where
  "b_srv os0 av sh =
     (case flag_args srv_flag (tl av) False of
        Inl c \<Rightarrow> (fail (RC os0 @ ''srv: unknown flag -'' @ [c] @ nl) sh, os0)
      | Inr (remove, args) \<Rightarrow>
          (let os = ensure_srvdir os0 in
           case args of
             [] \<Rightarrow>
               if \<not> remove then
                 (case (case readdir_os os SRV_DIR of
                          None \<Rightarrow> (sh, False)
                        | Some ents \<Rightarrow> srv_list os ents sh False) of
                    (sh1, found) \<Rightarrow>
                      (set_status True
                         (if found then sh1
                          else fprint 1 (''# no services (srv dir: '' @ SRV_DIR @ '')'' @ nl) sh1),
                       os))
               else (fail (RC os @ ''usage: srv [-r] [name [cmd ...]]'' @ nl) sh, os)
           | name # cmd \<Rightarrow>
               (let srvpath = take 4095 (SRV_DIR @ ''/'' @ name) in
                if remove then
                  (if stat_os os srvpath = None then
                     (fail (RC os @ ''srv: '' @ name @ '': not found'' @ nl) sh, os)
                   else
                     (set_status True
                        (if dashex os then fprint 2 (''srv: removed '' @ name @ nl) sh else sh),
                      unlink srvpath os))
                else if cmd = [] then
                  (if stat_os os srvpath = None then
                     (fail (RC os @ ''srv: '' @ name @ '': not found'' @ nl) sh, os)
                   else
                     (set_status True
                        (fprint 1 (srvpath @ nl)
                           (varassign (take 255 (''srv_'' @ name)) [srvpath] sh)),
                      os))
                else if \<not> mkfifo_os os srvpath then
                  (fail (RC os @ ''srv: cannot create '' @ srvpath @ '': '' @
                         strerror_os os srvpath @ nl) sh,
                   unlink srvpath os)
                else
                  (case fork_os os of
                     None \<Rightarrow> (set_status False (emit (Uerror ''fork'') sh), unlink srvpath os)
                   | Some pid \<Rightarrow>
                       (set_status True
                          (varassign ''apid'' [dec pid]
                             (if dashex os then
                                fprint 2 (''srv: '' @ name @ '' -> '' @ srvpath @ '' (pid '' @
                                          dec pid @ '')'' @ nl) (emit (Spawn cmd) sh)
                              else emit (Spawn cmd) sh)),
                        os\<lparr>stat_os := (stat_os os)(srvpath \<mapsto> Fifo)\<rparr>)))))"

section \<open>rfork\<close>

definition RFNAMEG :: cint where "RFNAMEG = push_bit 0 1"
definition RFCNAMEG :: cint where "RFCNAMEG = push_bit 1 1"
definition RFENVG :: cint where "RFENVG = push_bit 2 1"
definition RFCENVG :: cint where "RFCENVG = push_bit 3 1"
definition RFNOTEG :: cint where "RFNOTEG = push_bit 4 1"
definition RFFDG :: cint where "RFFDG = push_bit 5 1"
definition RFCFDG :: cint where "RFCFDG = push_bit 6 1"

definition rfork_flag :: "char \<Rightarrow> cint \<Rightarrow> cint option" where
  "rfork_flag c flags =
     (if c = CHR ''c'' \<or> c = CHR ''n'' then Some (flags OR RFNAMEG)
      else if c = CHR ''C'' \<or> c = CHR ''N'' then Some (flags OR RFCNAMEG)
      else if c = CHR ''e'' then Some (flags OR RFENVG)
      else if c = CHR ''E'' then Some (flags OR RFCENVG)
      else if c = CHR ''s'' then Some (flags OR RFNOTEG)
      else if c = CHR ''f'' then Some (flags OR RFFDG)
      else if c = CHR ''F'' then Some (flags OR RFCFDG)
      else None)"

definition close_fd :: "nat \<Rightarrow> shell \<Rightarrow> shell" where
  "close_fd fd sh = sh\<lparr>fds := fds sh - {fd}\<rparr>"

text \<open>
  \<open>b_rfork\<close>: the letters of the first argument, then the flags in the order of the
  source. \<open>linux\<close> is the \<open>#ifdef __linux__\<close>; \<open>alias\<close> after the assignment of \<open>path\<close>
  belongs to the host shell.
\<close>

definition b_rfork :: "os \<Rightarrow> string list \<Rightarrow> shell \<Rightarrow> shell" where
  "b_rfork os av sh =
     (case (case tl av of [] \<Rightarrow> Inr 0 | f # rest \<Rightarrow> flag_letters rfork_flag f 0) of
        Inl c \<Rightarrow> fail (RC os @ ''rfork: unknown flag '' @ [c] @ nl) sh
      | Inr flags0 \<Rightarrow>
          (let flags = (if flags0 = 0 then RFNOTEG else flags0);
               sh1 = (if flags AND RFNOTEG \<noteq> 0 \<and> setpgid_os os = PgErr \<and> dashex os then
                        fprint 2 (''rfork: setpgid: '' @ strerror_os os ''setpgid'' @ nl) sh
                      else sh)
           in if flags AND RFNAMEG \<noteq> 0 \<and> linux os \<and> \<not> unshare_os os then
                fail (RC os @ ''rfork: unshare(CLONE_NEWNS): '' @ strerror_os os ''unshare'' @ nl) sh1
              else if flags AND RFNAMEG \<noteq> 0 \<and> \<not> linux os then
                fail (RC os @ ''rfork: mount namespace not supported on this platform'' @ nl) sh1
              else
                (let sh2 = (if flags AND RFENVG \<noteq> 0 then
                              varassign ''path'' [''/usr/local/bin'', ''/usr/bin'', ''/bin'']
                                (sh1\<lparr>environ := []\<rparr>)
                            else sh1);
                     sh3 = (if flags AND RFFDG \<noteq> 0 then fold close_fd [3..<256] sh2 else sh2)
                 in set_status True sh3)))"

section \<open>Sequences of builtins\<close>

text \<open>
  The shell calls a builtin by the name in \<open>av[0]\<close>. Between two builtins the world may
  change in any way, so a run is a list of invocations, each with the environment it
  meets. A run stops at a fault.
\<close>

definition builtin :: "os \<Rightarrow> string list \<Rightarrow> shell \<Rightarrow> fault + shell" where
  "builtin os av sh =
     (if av = [] then Inr sh
      else if hd av = ''bind'' then Inr (fst (b_bind os av sh))
      else if hd av = ''mount'' then Inr (fst (b_mount os av sh))
      else if hd av = ''unmount'' then Inr (b_unmount os av sh)
      else if hd av = ''ns'' then Inr (b_ns os av sh)
      else if hd av = ''cpu'' then b_cpu os av sh
      else if hd av = ''import'' then Inr (fst (b_import os av sh))
      else if hd av = ''srv'' then Inr (fst (b_srv os av sh))
      else if hd av = ''rfork'' then Inr (b_rfork os av sh)
      else if hd av = ''addns'' then Inr (fst (b_addns os av sh))
      else Inr sh)"

fun run :: "(os \<times> string list) list \<Rightarrow> shell \<Rightarrow> fault + shell" where
  "run [] sh = Inr sh"
| "run ((os, av) # cmds) sh =
     (case builtin os av sh of
        Inl e \<Rightarrow> Inl e
      | Inr sh' \<Rightarrow> run cmds sh')"

text \<open>The shell at start, after \<open>dist_init\<close>, with the three standard descriptors open.\<close>

definition shell_init :: shell where
  "shell_init = \<lparr>tab = dist_init, status = Truth True, vars = (\<lambda>v. None), environ = [],
     fds = {0, 1, 2}, trace = []\<rparr>"

section \<open>Reading the table\<close>

text \<open>
  The resolution order of a mountpoint: the entries met when the chain of its bucket is
  walked from \<open>find_bind\<close>'s entry on and every entry at \<open>to\<close> is taken. \<open>chain_from\<close> is
  the same walk with nothing skipped: the entry \<open>find_bind\<close> returns and all that its
  \<open>n\<close> links lead to.
\<close>

definition chain_for :: "table \<Rightarrow> string \<Rightarrow> Bind list" where
  "chain_for t to = filter (\<lambda>b. bind_to b = to) (bindtab t (pathhash to))"

definition chain_from :: "table \<Rightarrow> string \<Rightarrow> Bind list" where
  "chain_from t to = dropWhile (\<lambda>b. bind_to b \<noteq> to) (bindtab t (pathhash to))"

section \<open>A sample environment\<close>

text \<open>
  An environment in which no path exists, \<open>mkdir\<close> succeeds and every forked command
  exits with status 1. The concrete runs below start from it.
\<close>

definition os_bare :: os where
  "os_bare = \<lparr>RC = ''rc: '', dashex = False, fmtS = (\<lambda>s. s), linux = True,
     stat_os = (\<lambda>p. None), mkdir_os = (\<lambda>p. MkOk), mkfifo_os = (\<lambda>p. True),
     realpath_os = (\<lambda>p. None), readdir_os = (\<lambda>p. None), proc_mounts_os = None,
     strerror_os = (\<lambda>p. ''No such file or directory''), run_os = (\<lambda>argv. Some 256),
     fork_os = Some 4242, setpgid_os = PgOk, unshare_os = True, envbuf0 = []\<rparr>"



text \<open>
  An environment in which \<open>sshfs\<close> and \<open>mount\<close> exit with status 1 and every other
  command exits with status 0.
\<close>

definition os_mount_fails :: os where
  "os_mount_fails = os_bare\<lparr>run_os :=
     (\<lambda>argv. if argv \<noteq> [] \<and> (hd argv = ''sshfs'' \<or> hd argv = ''mount'') then Some 256 else Some 0)\<rparr>"

section \<open>The environment preamble of cpu\<close>

text \<open>
  What \<open>envbuf\<close> holds when it fits: \<open>PATH=\<close>, the words of \<open>$path\<close> joined by colons,
  \<open>; \<close>. With \<open>$path\<close> unset the array is never written.
\<close>

definition preamble :: "os \<Rightarrow> shell \<Rightarrow> string" where
  "preamble os sh =
     (if varlookup sh ''path'' = [] then envbuf0 os
      else ''PATH='' @ concat (path_pieces (varlookup sh ''path'')) @ ''; '')"

section \<open>Invariants of the stored modes\<close>

text \<open>
  \<open>mode_ok\<close>: a stored mode is one of the three binding modes. \<open>table_ok\<close>: every entry
  of the table has such a mode. \<open>flag_mode\<close>: the values the variable \<open>mode\<close> of a
  builtin can take while its options are read, one of the three modes with or without
  \<open>BIND_CREATE\<close>.
\<close>

definition mode_ok :: "cint \<Rightarrow> bool" where
  "mode_ok m = (m = BIND_REPLACE \<or> m = BIND_BEFORE \<or> m = BIND_AFTER)"

definition table_ok :: "table \<Rightarrow> bool" where
  "table_ok t = list_all (\<lambda>b. mode_ok (bind_mode b)) (entries t)"

definition flag_mode :: "cint \<Rightarrow> bool" where
  "flag_mode m = (m \<in> {0, 1, 2, 4, 5, 6})"

text \<open>The sample environment with every forked command exiting with status 0.\<close>

definition os_ok :: os where
  "os_ok = os_bare\<lparr>run_os := (\<lambda>argv. Some 0)\<rparr>"

section \<open>Properties of the bind table\<close>

declare strip_slashes.simps [simp del]

lemma pathhash_lt: "pathhash s < BIND_MAX"
  by (simp add: pathhash_def BIND_MAX_def)

lemma add_before_bucket:
  "bindtab (snd (add_bind frm to BIND_BEFORE t)) =
     (bindtab t)(pathhash to :=
        \<lparr>bind_from = frm, bind_to = to, bind_mode = BIND_BEFORE\<rparr> # bindtab t (pathhash to))"
  by (simp add: add_bind_def Let_def BIND_BEFORE_def BIND_AFTER_def BIND_REPLACE_def
      split: option.split)

lemma add_after_bucket:
  "find_bind t to \<noteq> None \<Longrightarrow>
   bindtab (snd (add_bind frm to BIND_AFTER t)) =
     (bindtab t)(pathhash to :=
        bindtab t (pathhash to) @ [\<lparr>bind_from = frm, bind_to = to, bind_mode = BIND_AFTER\<rparr>])"
  by (auto simp add: add_bind_def Let_def BIND_BEFORE_def BIND_AFTER_def BIND_REPLACE_def
      split: option.split)

lemma find_bind_add_before:
  "find_bind (snd (add_bind frm to BIND_BEFORE t)) to =
     Some \<lparr>bind_from = frm, bind_to = to, bind_mode = BIND_BEFORE\<rparr>"
  by (simp add: find_bind_def add_before_bucket)

text \<open>
  C1 (as the code has it). When \<open>Before(a)\<close>, \<open>After(b)\<close>, \<open>Before(c)\<close> are added at one
  mountpoint \<open>to\<close>, in this order, to any table, the entries at \<open>to\<close> in chain order are
  \<open>c\<close>, \<open>a\<close>, then the entries the table already had at \<open>to\<close> in their old order, then
  \<open>b\<close>. The bucket itself is \<open>c\<close>, \<open>a\<close>, the old bucket, \<open>b\<close>: entries of other mountpoints
  that hash into the bucket stay between \<open>a\<close> and \<open>b\<close> on the \<open>n\<close> links and are passed
  over by the comparison of \<open>to\<close>. With no earlier entry at \<open>to\<close> the order is exactly
  \<open>c\<close>, \<open>a\<close>, \<open>b\<close>.
\<close>

theorem precedence_law:
  fixes t :: table and to a b c :: string
  defines "t1 \<equiv> snd (add_bind a to BIND_BEFORE t)"
  defines "t2 \<equiv> snd (add_bind b to BIND_AFTER t1)"
  defines "t3 \<equiv> snd (add_bind c to BIND_BEFORE t2)"
  defines "ea \<equiv> \<lparr>bind_from = a, bind_to = to, bind_mode = BIND_BEFORE\<rparr>"
  defines "eb \<equiv> \<lparr>bind_from = b, bind_to = to, bind_mode = BIND_AFTER\<rparr>"
  defines "ec \<equiv> \<lparr>bind_from = c, bind_to = to, bind_mode = BIND_BEFORE\<rparr>"
  shows "chain_for t3 to = ec # ea # chain_for t to @ [eb]
       \<and> chain_from t3 to = ec # ea # bindtab t (pathhash to) @ [eb]"
proof -
  have b1: "bindtab t1 (pathhash to) = ea # bindtab t (pathhash to)"
    by (simp add: t1_def ea_def add_before_bucket)
  have "find_bind t1 to \<noteq> None"
    by (simp add: t1_def find_bind_add_before)
  then have b2: "bindtab t2 (pathhash to) = ea # bindtab t (pathhash to) @ [eb]"
    by (simp add: t2_def eb_def add_after_bucket b1)
  have b3: "bindtab t3 (pathhash to) = ec # ea # bindtab t (pathhash to) @ [eb]"
    by (simp add: t3_def ec_def add_before_bucket b2)
  show ?thesis
    by (simp add: chain_for_def chain_from_def b3 ea_def eb_def ec_def)
qed

text \<open>
  C1 as stated fails on a table that already binds the mountpoint: after \<open>bind X /m\<close>,
  the three adds leave \<open>C, A, X, B\<close> at \<open>/m\<close>, on the walk that compares \<open>to\<close> and on the
  bare \<open>n\<close> links alike.
\<close>

theorem precedence_law_counterexample:
  "map bind_from (chain_for
     (snd (add_bind ''C'' ''/m'' BIND_BEFORE
       (snd (add_bind ''B'' ''/m'' BIND_AFTER
         (snd (add_bind ''A'' ''/m'' BIND_BEFORE
           (snd (add_bind ''X'' ''/m'' BIND_REPLACE dist_init)))))))) ''/m'')
     = [''C'', ''A'', ''X'', ''B'']
   \<and> map bind_from (chain_from
     (snd (add_bind ''C'' ''/m'' BIND_BEFORE
       (snd (add_bind ''B'' ''/m'' BIND_AFTER
         (snd (add_bind ''A'' ''/m'' BIND_BEFORE
           (snd (add_bind ''X'' ''/m'' BIND_REPLACE dist_init)))))))) ''/m'')
     \<noteq> [''C'', ''A'', ''B'']"
  by (simp add: chain_for_def chain_from_def add_bind_def find_bind_def dist_init_def Let_def
      BIND_BEFORE_def BIND_AFTER_def BIND_REPLACE_def)

text \<open>
  A bucket shared by two mountpoints: \<open>/usr\<close> and \<open>/etc\<close> hash to the same bucket. After
  \<open>bind Y /etc\<close>, the three adds at \<open>/usr\<close> resolve to \<open>C, A, B\<close>, and the \<open>n\<close> links
  from the first entry pass through the entry of \<open>/etc\<close>.
\<close>

lemma precedence_law_shared_bucket:
  "pathhash ''/usr'' = pathhash ''/etc''
   \<and> map bind_from (chain_for
     (snd (add_bind ''C'' ''/usr'' BIND_BEFORE
       (snd (add_bind ''B'' ''/usr'' BIND_AFTER
         (snd (add_bind ''A'' ''/usr'' BIND_BEFORE
           (snd (add_bind ''Y'' ''/etc'' BIND_REPLACE dist_init)))))))) ''/usr'')
     = [''C'', ''A'', ''B'']
   \<and> map (\<lambda>b. (bind_from b, bind_to b)) (chain_from
     (snd (add_bind ''C'' ''/usr'' BIND_BEFORE
       (snd (add_bind ''B'' ''/usr'' BIND_AFTER
         (snd (add_bind ''A'' ''/usr'' BIND_BEFORE
           (snd (add_bind ''Y'' ''/etc'' BIND_REPLACE dist_init)))))))) ''/usr'')
     = [(''C'', ''/usr''), (''A'', ''/usr''), (''Y'', ''/etc''), (''B'', ''/usr'')]"
proof -
  have h: "pathhash ''/usr'' = 5" "pathhash ''/etc'' = 5"
    by (simp_all add: pathhash_def BIND_MAX_def)
  show ?thesis
    by (simp add: h chain_for_def chain_from_def add_bind_def find_bind_def dist_init_def Let_def
        BIND_BEFORE_def BIND_AFTER_def BIND_REPLACE_def)
qed

subsection \<open>The entry count\<close>

lemma length_entries:
  "length (entries t) = sum_list (map (\<lambda>i. length (bindtab t i)) [0..<BIND_MAX])"
  by (simp add: entries_def length_concat comp_def)

lemma sum_list_bucket_upd:
  "h < n \<Longrightarrow>
   sum_list (map (\<lambda>i. length ((f(h := c)) i)) [0..<n]) + length (f h) =
   sum_list (map (\<lambda>i. length (f i)) [0..<n]) + length (c :: Bind list)"
proof (induction n)
  case 0
  then show ?case by simp
next
  case (Suc n)
  show ?case
  proof (cases "h = n")
    case True
    have "(\<Sum>i\<leftarrow>[0..<n]. length (if i = n then c else f i)) = (\<Sum>i\<leftarrow>[0..<n]. length (f i))"
      by (rule arg_cong [where f = sum_list], rule map_cong) auto
    then show ?thesis using True by simp
  next
    case False
    with Suc show ?thesis by simp
  qed
qed

lemma length_entries_upd:
  "bindtab t' = (bindtab t)(pathhash to := c) \<Longrightarrow>
   length (entries t') + length (bindtab t (pathhash to)) = length (entries t) + length c"
  using sum_list_bucket_upd [OF pathhash_lt, of "bindtab t" to c]
  by (simp add: length_entries)

lemma entries_dist_init: "entries dist_init = []"
  by (simp add: entries_def dist_init_def)

text \<open>
  C2 at its failing input: after \<open>dist_init\<close>, \<open>bind A /m\<close> and \<open>bind B /m\<close> (both in
  replace mode) leave one entry in the table while \<open>ns_count\<close> answers 2. The replace
  branch of \<open>add_bind\<close> frees the old entries and does not decrement \<open>nbinds\<close>, as
  \<open>remove_bind\<close> does for each entry it frees.
\<close>

theorem ns_count_replace_drift:
  "ns_count (snd (add_bind ''B'' ''/m'' BIND_REPLACE
      (snd (add_bind ''A'' ''/m'' BIND_REPLACE dist_init)))) = 2
   \<and> length (entries (snd (add_bind ''B'' ''/m'' BIND_REPLACE
      (snd (add_bind ''A'' ''/m'' BIND_REPLACE dist_init))))) = 1"
proof -
  let ?ea = "\<lparr>bind_from = ''A'', bind_to = ''/m'', bind_mode = 0\<rparr>"
  let ?eb = "\<lparr>bind_from = ''B'', bind_to = ''/m'', bind_mode = 0\<rparr>"
  let ?t1 = "snd (add_bind ''A'' ''/m'' BIND_REPLACE dist_init)"
  let ?t2 = "snd (add_bind ''B'' ''/m'' BIND_REPLACE ?t1)"
  have t1: "?t1 = dist_init\<lparr>bindtab := (bindtab dist_init)(pathhash ''/m'' := [?ea]), nbinds := 1\<rparr>"
    by (simp add: add_bind_def find_bind_def dist_init_def Let_def
        BIND_REPLACE_def BIND_BEFORE_def BIND_AFTER_def)
  have t2: "?t2 = ?t1\<lparr>bindtab := (bindtab ?t1)(pathhash ''/m'' := [?eb]), nbinds := 2\<rparr>"
    by (simp add: t1 add_bind_def find_bind_def dist_init_def Let_def
        BIND_REPLACE_def BIND_BEFORE_def BIND_AFTER_def)
  have l1: "length (entries ?t1) = 1"
    using length_entries_upd [of ?t1 dist_init "''/m''" "[?ea]"]
    by (simp add: t1 entries_dist_init) (simp add: dist_init_def)
  have b1: "bindtab ?t1 (pathhash ''/m'') = [?ea]"
    by (simp add: t1)
  have l2: "length (entries ?t2) = 1"
    using length_entries_upd [of ?t2 ?t1 "''/m''" "[?eb]"] l1 b1
    by (simp add: t2)
  have "ns_count ?t2 = 2"
    by (simp add: t2 ns_count_def)
  with l2 show ?thesis by simp
qed

section \<open>Properties of the resolver\<close>

text \<open>
  C5 (as the code has it). For a path whose canonical form has no entry in the table,
  \<open>ns_resolve\<close> returns the path it was given, as it was given: the canonical form is
  used for the lookup only.
\<close>

theorem ns_resolve_unbound:
  "find_bind t (cleanpath os (Some p)) = None \<Longrightarrow> ns_resolve os t (Some p) = Some p"
  by (simp add: ns_resolve_def find_bind_def Let_def)

theorem ns_resolve_unbound_witness:
  "find_bind dist_init (cleanpath os_bare (Some ''/n/remote'')) = None
   \<and> ns_resolve os_bare dist_init (Some ''/n/remote'') = Some ''/n/remote''"
proof -
  have h: "find_bind dist_init (cleanpath os_bare (Some ''/n/remote'')) = None"
    by (simp add: find_bind_def dist_init_def)
  from ns_resolve_unbound [OF h] h show ?thesis by simp
qed

text \<open>
  C5 as stated fails for a path that is not canonical: \<open>a/\<close> names nothing, its
  canonical form \<open>a\<close> is unbound, and the answer is \<open>a/\<close>, not \<open>a\<close>.
\<close>

theorem ns_resolve_canonical_counterexample:
  "find_bind dist_init (cleanpath os_bare (Some ''a/'')) = None
   \<and> cleanpath os_bare (Some ''a/'') = ''a''
   \<and> ns_resolve os_bare dist_init (Some ''a/'') = Some ''a/''
   \<and> ns_resolve os_bare dist_init (Some ''a/'') \<noteq> Some (cleanpath os_bare (Some ''a/''))"
  by (simp add: ns_resolve_def find_bind_def Let_def dist_init_def cleanpath_def os_bare_def
      strip_slashes.simps)

text \<open>
  C10. \<open>ns_resolve\<close> of a null path is null, whatever the table holds and whatever
  \<open>realpath\<close> would answer: neither is asked.
\<close>

theorem ns_resolve_null: "ns_resolve os t None = None"
  by (simp add: ns_resolve_def)

section \<open>Shell state untouched by printing and running\<close>

lemma tab_simps [simp]:
  "tab (fail msg sh) = tab sh"
  "tab (fprint fd s sh) = tab sh"
  "tab (emit e sh) = tab sh"
  "tab (set_status b sh) = tab sh"
  "tab (varassign v ws sh) = tab sh"
  "tab (snd (run_cmd os argv sh)) = tab sh"
  by (simp_all add: fail_def fprint_def emit_def set_status_def varassign_def run_cmd_def split: option.split)

lemma status_simps [simp]:
  "status (fail msg sh) = Truth False"
  "status (set_status b sh) = Truth b"
  by (simp_all add: fail_def set_status_def)

lemma run_cmd_tab: "run_cmd os argv sh = (st, sh1) \<Longrightarrow> tab sh1 = tab sh"
  by (auto simp: run_cmd_def emit_def split: option.splits)

lemma run_cmd_fails:
  "cmd_fails os argv \<Longrightarrow> run_cmd os argv sh = (st, sh1) \<Longrightarrow> \<not> exited_ok st"
  by (auto simp: cmd_fails_def run_cmd_def exited_ok_def WIFEXITED_def split: option.splits)

lemma ensuredir_keeps [simp]:
  "run_os (snd (ensuredir p m os)) = run_os os"
  "realpath_os (snd (ensuredir p m os)) = realpath_os os"
  by (simp_all add: ensuredir_def split: mkdir_res.split)

lemma cmd_fails_ensuredir:
  "ensuredir p m os = (rc, os1) \<Longrightarrow> cmd_fails os1 argv = cmd_fails os argv"
  using ensuredir_keeps(1) [of p m os] by (simp add: cmd_fails_def)

lemma ensuredir_create:
  "ensuredir p (m OR BIND_CREATE) os =
     (if isdir os p then (0, os)
      else case mkdir_os os p of
             MkOk \<Rightarrow> (0, os\<lparr>stat_os := (stat_os os)(p \<mapsto> Dir)\<rparr>)
           | MkEEXIST \<Rightarrow> (0, os)
           | MkErr \<Rightarrow> (- 1, os))"
proof -
  have "(m OR BIND_CREATE) AND BIND_CREATE = BIND_CREATE"
    by (simp add: BIND_CREATE_def bit_eq_iff bit_simps)
  then show ?thesis by (simp add: ensuredir_def BIND_CREATE_def)
qed

section \<open>Properties of mount\<close>

lemma try_system_mount_fail:
  "status (try_system_mount os addr mp m spec sh) = Truth False \<Longrightarrow>
   tab (try_system_mount os addr mp m spec sh) = tab sh"
  by (auto simp: try_system_mount_def record_bind_def split: prod.splits if_splits dest: run_cmd_tab)

text \<open>
  C3 (as the code has it). \<open>b_mount\<close> calls \<open>ensuredir\<close> with \<open>mode | BIND_CREATE\<close>, so
  for any flags it creates the mountpoint whenever that is not a directory and \<open>mkdir\<close>
  succeeds. It fails with the "cannot create" diagnostic when the mountpoint is not a
  directory and \<open>mkdir\<close> fails with an error other than \<open>EEXIST\<close>; nothing is created then.
\<close>

theorem mount_creates_mountpoint:
  assumes "mount_args (tl av) BIND_REPLACE None = Inr (m, spec, addr # mp # rest)"
  shows "snd (b_mount os av sh) =
           (if \<not> isdir os mp \<and> mkdir_os os mp = MkOk
            then os\<lparr>stat_os := (stat_os os)(mp \<mapsto> Dir)\<rparr> else os)
       \<and> (\<not> isdir os mp \<and> mkdir_os os mp = MkErr \<longrightarrow>
            fst (b_mount os av sh) =
              fail (RC os @ ''mount: cannot create '' @ mp @ '': '' @ strerror_os os mp @ nl) sh)"
  using assms
  by (auto simp: b_mount_def ensuredir_create split: mkdir_res.splits prod.splits)

theorem mount_creates_mountpoint_witness:
  "mount_args (tl [''mount'', ''-a'', ''srv'', ''/n/x'']) BIND_REPLACE None
     = Inr (BIND_AFTER, None, [''srv'', ''/n/x''])
   \<and> snd (b_mount os_bare [''mount'', ''-a'', ''srv'', ''/n/x''] shell_init)
     = os_bare\<lparr>stat_os := (stat_os os_bare)(''/n/x'' \<mapsto> Dir)\<rparr>"
proof -
  have h: "mount_args (tl [''mount'', ''-a'', ''srv'', ''/n/x'']) BIND_REPLACE None
     = Inr (BIND_AFTER, None, [''srv'', ''/n/x''])"
    by (simp add: mount_flag_def mode_flag_def BIND_REPLACE_def BIND_AFTER_def BIND_BEFORE_def)
  have "\<not> isdir os_bare ''/n/x'' \<and> mkdir_os os_bare ''/n/x'' = MkOk"
    by (simp add: isdir_def os_bare_def)
  with mount_creates_mountpoint [OF h, of os_bare shell_init] h show ?thesis by simp
qed

text \<open>
  C3 as stated fails: \<open>mount srv /n/x\<close> without \<open>-c\<close>, on a mountpoint that does not
  exist, creates the directory; the only diagnostic is that of the failed mount command.
\<close>

theorem mount_create_flag_counterexample:
  "mount_args [''srv'', ''/n/x''] BIND_REPLACE None = Inr (BIND_REPLACE, None, [''srv'', ''/n/x''])
   \<and> BIND_REPLACE AND BIND_CREATE = 0
   \<and> stat_os os_bare ''/n/x'' = None
   \<and> stat_os (snd (b_mount os_bare [''mount'', ''srv'', ''/n/x''] shell_init)) ''/n/x'' = Some Dir
   \<and> trace (fst (b_mount os_bare [''mount'', ''srv'', ''/n/x''] shell_init))
       = [Exec [''mount'', ''srv'', ''/n/x''],
          Print 2 (''rc: mount: failed to mount srv on /n/x'' @ nl)]"
  by (simp add: b_mount_def ensuredir_def isdir_def os_bare_def try_system_mount_def run_cmd_def
      exited_ok_def WIFEXITED_def WEXITSTATUS_def fail_def fprint_def emit_def set_status_def
      shell_init_def BIND_REPLACE_def BIND_CREATE_def)

lemma try_system_mount_fails:
  assumes "cmd_fails os
     ([''mount''] @ (case spec of None \<Rightarrow> [] | Some s \<Rightarrow> [''-t'', s]) @ [addr, mp])"
  shows "status (try_system_mount os addr mp m spec sh) = Truth False"
proof -
  obtain st sh1 where r: "run_cmd os
      ([''mount''] @ (case spec of None \<Rightarrow> [] | Some s \<Rightarrow> [''-t'', s]) @ [addr, mp]) sh = (st, sh1)"
    by fastforce
  have "\<not> exited_ok st" using assms r by (rule run_cmd_fails)
  then show ?thesis using r by (simp add: try_system_mount_def)
qed

lemma b_mount_false_keeps_tab:
  "status (fst (b_mount os av sh)) = Truth False \<Longrightarrow> tab (fst (b_mount os av sh)) = tab sh"
proof (cases "mount_args (tl av) BIND_REPLACE None")
  case (Inl e)
  then show ?thesis by (cases e) (simp_all add: b_mount_def)
next
  case (Inr r)
  assume f: "status (fst (b_mount os av sh)) = Truth False"
  obtain m spec args where r: "r = (m, spec, args)" by (cases r) auto
  show ?thesis
  proof (cases "\<exists>addr mp rest. args = addr # mp # rest")
    case False
    then have "fst (b_mount os av sh) =
        fail (RC os @ ''usage: mount [-abc] [-s spec] address mountpoint'' @ nl) sh"
      using Inr r by (auto simp: b_mount_def split: list.splits)
    then show ?thesis by simp
  next
    case True
    then obtain addr mp rest where args: "args = addr # mp # rest" by blast
    obtain rc os1 where e: "ensuredir mp (m OR BIND_CREATE) os = (rc, os1)" by fastforce
    show ?thesis
    proof (cases "rc \<noteq> 0")
      case True
      then show ?thesis using Inr r args e by (simp add: b_mount_def)
    next
      case False
      note rc0 = this
      show ?thesis
      proof (cases "CHR '':'' \<in> set addr \<and> CHR ''/'' \<in> set addr")
        case False
        then have b: "fst (b_mount os av sh) = try_system_mount os1 addr mp m spec sh"
          using Inr r args e rc0 by (auto simp: b_mount_def)
        show ?thesis
          using f unfolding b by (rule try_system_mount_fail)
      next
        case True
        obtain st sh1 where run: "run_cmd os1
              ([''sshfs'', addr, mp, ''-o'', ''reconnect,ServerAliveInterval=15''] @
               (case spec of None \<Rightarrow> [] | Some s \<Rightarrow> [''-o'', s])) sh = (st, sh1)"
          by fastforce
        let ?sh2 = "fprint 2 (RC os @ ''mount: sshfs failed, trying mount(8)'' @ nl) sh1"
        have b: "fst (b_mount os av sh) =
            (if exited_ok st then record_bind os1 addr mp m sh1
             else try_system_mount os1 addr mp m spec ?sh2)"
          using Inr r args e rc0 True run by (simp add: b_mount_def)
        have t1: "tab sh1 = tab sh" using run by (rule run_cmd_tab)
        show ?thesis
        proof (cases "exited_ok st")
          case True
          then show ?thesis using f unfolding b by (simp add: record_bind_def)
        next
          case False
          then show ?thesis
            using f try_system_mount_fail [of os1 addr mp m spec ?sh2] t1 unfolding b by simp
        qed
      qed
    qed
  qed
qed

lemma b_mount_strategies_fail:
  assumes parse: "mount_args (tl av) BIND_REPLACE None = Inr (m, spec, addr # mp # rest)"
    and ssh: "CHR '':'' \<in> set addr \<and> CHR ''/'' \<in> set addr \<longrightarrow>
        cmd_fails os ([''sshfs'', addr, mp, ''-o'', ''reconnect,ServerAliveInterval=15''] @
                      (case spec of None \<Rightarrow> [] | Some s \<Rightarrow> [''-o'', s]))"
    and mnt: "cmd_fails os
        ([''mount''] @ (case spec of None \<Rightarrow> [] | Some s \<Rightarrow> [''-t'', s]) @ [addr, mp])"
  shows "status (fst (b_mount os av sh)) = Truth False"
proof -
  obtain rc os1 where e: "ensuredir mp (m OR BIND_CREATE) os = (rc, os1)" by fastforce
  have mnt1: "cmd_fails os1
        ([''mount''] @ (case spec of None \<Rightarrow> [] | Some s \<Rightarrow> [''-t'', s]) @ [addr, mp])"
    using mnt cmd_fails_ensuredir [OF e] by simp
  show ?thesis
  proof (cases "rc \<noteq> 0")
    case True
    then show ?thesis using parse e by (simp add: b_mount_def)
  next
    case False
    note rc0 = this
    show ?thesis
    proof (cases "CHR '':'' \<in> set addr \<and> CHR ''/'' \<in> set addr")
      case False
      then have b: "fst (b_mount os av sh) = try_system_mount os1 addr mp m spec sh"
        using parse e rc0 by (auto simp: b_mount_def)
      show ?thesis unfolding b using mnt1 by (rule try_system_mount_fails)
    next
      case True
      obtain st sh1 where run: "run_cmd os1
            ([''sshfs'', addr, mp, ''-o'', ''reconnect,ServerAliveInterval=15''] @
             (case spec of None \<Rightarrow> [] | Some s \<Rightarrow> [''-o'', s])) sh = (st, sh1)"
        by fastforce
      have "cmd_fails os1 ([''sshfs'', addr, mp, ''-o'', ''reconnect,ServerAliveInterval=15''] @
             (case spec of None \<Rightarrow> [] | Some s \<Rightarrow> [''-o'', s]))"
        using ssh True cmd_fails_ensuredir [OF e] by simp
      then have nok: "\<not> exited_ok st" using run by (rule run_cmd_fails)
      let ?sh2 = "fprint 2 (RC os @ ''mount: sshfs failed, trying mount(8)'' @ nl) sh1"
      have b: "fst (b_mount os av sh) = try_system_mount os1 addr mp m spec ?sh2"
        using parse e rc0 True run nok by (simp add: b_mount_def)
      show ?thesis unfolding b using mnt1 by (rule try_system_mount_fails)
    qed
  qed
qed

text \<open>
  C8. On every path of \<open>b_mount\<close> that ends in \<open>set(FALSE)\<close> the bind table, chains and
  \<open>nbinds\<close>, is the one before the call. And when the strategies of this call fail, that
  is the \<open>sshfs\<close> command where the address has a colon and a slash, and then the
  \<open>mount\<close> command, the call ends in \<open>set(FALSE)\<close> with the table as it was, whatever
  any other command would do.
\<close>

theorem mount_failure_keeps_table:
  "(status (fst (b_mount os av sh)) = Truth False \<longrightarrow> tab (fst (b_mount os av sh)) = tab sh)
   \<and> (mount_args (tl av) BIND_REPLACE None = Inr (m, spec, addr # mp # rest) \<longrightarrow>
      (CHR '':'' \<in> set addr \<and> CHR ''/'' \<in> set addr \<longrightarrow>
         cmd_fails os ([''sshfs'', addr, mp, ''-o'', ''reconnect,ServerAliveInterval=15''] @
                       (case spec of None \<Rightarrow> [] | Some s \<Rightarrow> [''-o'', s]))) \<longrightarrow>
      cmd_fails os ([''mount''] @ (case spec of None \<Rightarrow> [] | Some s \<Rightarrow> [''-t'', s]) @ [addr, mp]) \<longrightarrow>
      status (fst (b_mount os av sh)) = Truth False \<and> tab (fst (b_mount os av sh)) = tab sh)"
  using b_mount_false_keeps_tab [of os av sh] b_mount_strategies_fail [of av m spec addr mp rest os sh]
  by blast

theorem mount_failure_keeps_table_witness:
  "mount_args (tl [''mount'', ''host:/x'', ''/n/x'']) BIND_REPLACE None
     = Inr (BIND_REPLACE, None, [''host:/x'', ''/n/x''])
   \<and> CHR '':'' \<in> set ''host:/x'' \<and> CHR ''/'' \<in> set ''host:/x''
   \<and> cmd_fails os_mount_fails
        [''sshfs'', ''host:/x'', ''/n/x'', ''-o'', ''reconnect,ServerAliveInterval=15'']
   \<and> cmd_fails os_mount_fails [''mount'', ''host:/x'', ''/n/x'']
   \<and> \<not> cmd_fails os_mount_fails [''umount'', ''/n/x'']
   \<and> status (fst (b_mount os_mount_fails [''mount'', ''host:/x'', ''/n/x''] shell_init)) = Truth False
   \<and> tab (fst (b_mount os_mount_fails [''mount'', ''host:/x'', ''/n/x''] shell_init)) = tab shell_init"
proof -
  have p: "mount_args (tl [''mount'', ''host:/x'', ''/n/x'']) BIND_REPLACE None
     = Inr (BIND_REPLACE, None, [''host:/x'', ''/n/x''])"
    by simp
  have c: "cmd_fails os_mount_fails
        [''sshfs'', ''host:/x'', ''/n/x'', ''-o'', ''reconnect,ServerAliveInterval=15'']"
    "cmd_fails os_mount_fails [''mount'', ''host:/x'', ''/n/x'']"
    "\<not> cmd_fails os_mount_fails [''umount'', ''/n/x'']"
    by (simp_all add: cmd_fails_def os_mount_fails_def exited_ok_def WIFEXITED_def WEXITSTATUS_def)
  from mount_failure_keeps_table [of os_mount_fails "[''mount'', ''host:/x'', ''/n/x'']" shell_init
      BIND_REPLACE None "''host:/x''" "''/n/x''" "[]"] p c
  show ?thesis by simp
qed

section \<open>Properties of srv and ns\<close>



lemma ns_fallback:
  "entries (tab sh) = [] \<Longrightarrow> proc_mounts_os os = None \<Longrightarrow> run_os os [''mount''] = Some st \<Longrightarrow>
   b_ns os [''ns''] sh = set_status True (emit (Exec [''mount'']) sh)"
  by (simp add: b_ns_def Let_def run_cmd_def)




section \<open>Properties of cpu\<close>

lemma snprintf_all_fits:
  "length buf = len \<Longrightarrow> len + length (concat ss) < sz \<Longrightarrow>
   snprintf_all sz ss (buf, len) = Inr (buf @ concat ss, len + length (concat ss))"
proof (induction ss arbitrary: buf len)
  case Nil
  then show ?case by simp
next
  case (Cons s ss)
  have step: "snprintf_at sz s (buf, len) = Inr (buf @ s, len + length s)"
    using Cons.prems by (simp add: snprintf_at_def)
  have "snprintf_all sz ss (buf @ s, len + length s)
        = Inr ((buf @ s) @ concat ss, (len + length s) + length (concat ss))"
    using Cons.prems by (intro Cons.IH) auto
  with step show ?case by (simp add: add.assoc)
qed

lemma concat_cmd_pieces_False:
  "concat (cmd_pieces False ps) = concat (map (\<lambda>p. '' '' @ cpu_quote p) ps)"
  by (induction ps) auto

lemma concat_cmd_pieces:
  "concat (cmd_pieces True (a # as)) = cpu_quote a @ concat (map (\<lambda>p. '' '' @ cpu_quote p) as)"
  by (simp add: concat_cmd_pieces_False)

text \<open>
  C7 (as the code has it). When the preamble and the serialized command fit the 4096
  bytes of \<open>cmdbuf\<close>, the remote command is the preamble followed by the arguments, one
  space between two of them, an argument between single quotes when it holds a space
  or a tab and as it is otherwise.
\<close>

theorem cpu_quoting:
  assumes fits: "length (preamble os sh) + length (concat (cmd_pieces True (a # as))) < 4096"
  shows "remote_command os sh (a # as)
           = Inr (preamble os sh @ cpu_quote a @ concat (map (\<lambda>p. '' '' @ cpu_quote p) as))
       \<and> (\<forall>p. cpu_quote p =
            (if CHR '' '' \<in> set p \<or> CHR 0x09 \<in> set p then [CHR 0x27] @ p @ [CHR 0x27] else p))"
proof -
  let ?pre = "preamble os sh"
  have short: "length ?pre < 4096" using fits by simp
  have env: "(if varlookup sh ''path'' = [] then Inr (envbuf0 os, 0)
            else snprintf_all 8192
                   ([''PATH=''] @ path_pieces (varlookup sh ''path'') @ [''; '']) ([], 0))
        = Inr (?pre, if varlookup sh ''path'' = [] then 0 else length ?pre)"
  proof (cases "varlookup sh ''path'' = []")
    case True
    then show ?thesis by (simp add: preamble_def)
  next
    case False
    have "snprintf_all 8192 ([''PATH=''] @ path_pieces (varlookup sh ''path'') @ [''; '']) ([], 0)
          = Inr ([] @ concat ([''PATH=''] @ path_pieces (varlookup sh ''path'') @ [''; '']),
                 0 + length (concat ([''PATH=''] @ path_pieces (varlookup sh ''path'') @ [''; ''])))"
      using short False by (intro snprintf_all_fits) (auto simp: preamble_def)
    with False show ?thesis by (simp add: preamble_def)
  qed
  have cmd: "snprintf_all 4096 (cmd_pieces True (a # as)) (take 4095 ?pre, length ?pre)
        = Inr (take 4095 ?pre @ concat (cmd_pieces True (a # as)),
               length ?pre + length (concat (cmd_pieces True (a # as))))"
    using fits short by (intro snprintf_all_fits) auto
  have "remote_command os sh (a # as) = Inr (?pre @ concat (cmd_pieces True (a # as)))"
    unfolding remote_command_def env using cmd short by simp
  then have "remote_command os sh (a # as)
           = Inr (?pre @ cpu_quote a @ concat (map (\<lambda>p. '' '' @ cpu_quote p) as))"
    by (simp only: concat_cmd_pieces)
  then show ?thesis by (simp add: cpu_quote_def)
qed

theorem cpu_quoting_witness:
  "length (preamble os_bare (varassign ''path'' [''/bin''] shell_init))
     + length (concat (cmd_pieces True [''echo'', ''a b''])) < 4096
   \<and> remote_command os_bare (varassign ''path'' [''/bin''] shell_init) [''echo'', ''a b'']
     = Inr (''PATH=/bin; echo '' @ [CHR 0x27] @ ''a b'' @ [CHR 0x27])"
proof -
  have h: "length (preamble os_bare (varassign ''path'' [''/bin''] shell_init))
     + length (concat (cmd_pieces True [''echo'', ''a b''])) < 4096"
    by (simp add: preamble_def varlookup_def varassign_def shell_init_def cpu_quote_def)
  from cpu_quoting [OF h] h show ?thesis
    by (simp add: preamble_def varlookup_def varassign_def shell_init_def cpu_quote_def)
qed

text \<open>
  C7 as stated fails for whitespace other than space and tab: the argument \<open>a\<close>,
  newline, \<open>b\<close> goes into the remote command without quotes.
\<close>

theorem cpu_quoting_newline_counterexample:
  "remote_command os_bare (varassign ''path'' [''/bin''] shell_init)
     [''echo'', [CHR ''a'', CHR 0x0A, CHR ''b'']]
   = Inr (''PATH=/bin; echo a'' @ [CHR 0x0A] @ ''b'')"
  by (simp add: remote_command_def varlookup_def varassign_def shell_init_def snprintf_at_def
      cpu_quote_def)

section \<open>Properties of rfork\<close>

lemma fds_fold_close: "fds (fold close_fd xs sh) = fds sh - set xs"
  by (induction xs arbitrary: sh) (auto simp: close_fd_def)

lemma rfork_f_fds: "fds (b_rfork os [''rfork'', ''f''] sh) = fds sh - {3..<256}"
  by (simp add: b_rfork_def rfork_flag_def RFFDG_def RFNOTEG_def RFNAMEG_def RFENVG_def
      Let_def set_status_def fds_fold_close del: upt_rec_numeral)

text \<open>
  C4 at its failing input: with descriptors 0, 1, 2, 3, 255 and 256 open, \<open>rfork f\<close>
  closes 3 and 255 and leaves 256 open. The loop of \<open>b_rfork\<close> stops at 255
  (lemma \<open>rfork_f_fds\<close>).
\<close>

theorem rfork_f_leaves_high_fds:
  "fds (b_rfork os_bare [''rfork'', ''f''] (shell_init\<lparr>fds := {0, 1, 2, 3, 255, 256}\<rparr>)) = {0, 1, 2, 256}"
  by (simp add: rfork_f_fds insert_Diff_if)

section \<open>The stored modes\<close>

lemma set_entries: "set (entries t) = (\<Union>i\<in>{..<BIND_MAX}. set (bindtab t i))"
  by (auto simp: entries_def)

lemma in_entries: "b \<in> set (bindtab t (pathhash to)) \<Longrightarrow> b \<in> set (entries t)"
  using pathhash_lt [of to] by (auto simp: set_entries)

lemma table_ok_upd:
  assumes "table_ok t" and "bindtab t' = (bindtab t)(h := c)"
    and "\<forall>b\<in>set c. mode_ok (bind_mode b)"
  shows "table_ok t'"
  using assms by (auto simp: table_ok_def list_all_iff set_entries split: if_splits)

lemma mode_flag_ok: "flag_mode m \<Longrightarrow> mode_flag c m = Some m' \<Longrightarrow> flag_mode m'"
  by (auto simp: flag_mode_def mode_flag_def BIND_BEFORE_def BIND_AFTER_def BIND_CREATE_def
      split: if_splits)

lemma mount_flag_ok: "flag_mode m \<Longrightarrow> mount_flag c m = Some m' \<Longrightarrow> flag_mode m'"
  by (auto simp: mount_flag_def split: if_splits dest: mode_flag_ok)

lemma flag_letters_inv:
  assumes step: "\<And>c m m'. P m \<Longrightarrow> sw c m = Some m' \<Longrightarrow> P m'"
  shows "P m \<Longrightarrow> flag_letters sw f m = Inr m' \<Longrightarrow> P m'"
proof (induction f arbitrary: m)
  case Nil
  then show ?case by simp
next
  case (Cons c f)
  then show ?case by (auto split: option.splits dest: step)
qed

lemma flag_args_inv:
  assumes step: "\<And>c m m'. P m \<Longrightarrow> sw c m = Some m' \<Longrightarrow> P m'"
  shows "P m \<Longrightarrow> flag_args sw av m = Inr (m', args) \<Longrightarrow> P m'"
proof (induction av arbitrary: m)
  case Nil
  then show ?case by simp
next
  case (Cons a av)
  show ?case
  proof (cases "a \<noteq> [] \<and> hd a = CHR ''-''")
    case False
    then show ?thesis using Cons.prems by auto
  next
    case True
    then obtain m1 where l: "flag_letters sw (tl a) m = Inr m1"
      and r: "flag_args sw av m1 = Inr (m', args)"
      using Cons.prems(2) by (auto split: sum.splits)
    have "P m1" using step Cons.prems(1) l by (rule flag_letters_inv)
    then show ?thesis using r by (rule Cons.IH)
  qed
qed

lemma mount_args_inv:
  "flag_mode m \<Longrightarrow> mount_args av m spec = Inr (m', spec', args) \<Longrightarrow> flag_mode m'"
proof (induction av m spec rule: mount_args.induct)
  case (1 m spec)
  then show ?case by simp
next
  case (2 a m spec)
  show ?case
  proof (cases "a \<noteq> [] \<and> hd a = CHR ''-''")
    case False
    then show ?thesis using "2.prems" by auto
  next
    case True
    then have l: "flag_letters mount_flag (tl a) m = Inr m'"
      using "2.prems"(2) by (auto split: if_splits sum.splits)
    show ?thesis using mount_flag_ok "2.prems"(1) l by (rule flag_letters_inv)
  qed
next
  case (3 a s av m spec)
  show ?case
  proof (cases "a \<noteq> [] \<and> hd a = CHR ''-''")
    case False
    then show ?thesis using "3.prems" by auto
  next
    case flag: True
    show ?thesis
    proof (cases "tl a = ''s''")
      case True
      then show ?thesis using flag "3.prems" "3.IH"(1) by auto
    next
      case False
      then obtain m1 where l: "flag_letters mount_flag (tl a) m = Inr m1"
        and r: "mount_args (s # av) m1 spec = Inr (m', spec', args)"
        using flag "3.prems"(2) by (auto split: sum.splits)
      have "flag_mode m1" using mount_flag_ok "3.prems"(1) l by (rule flag_letters_inv)
      then show ?thesis using flag False l r "3.IH"(2) by auto
    qed
  qed
qed

lemma stored_mode_ok: "flag_mode m \<Longrightarrow> mode_ok (m AND (BIND_BEFORE OR BIND_AFTER OR BIND_REPLACE))"
  by (auto simp: flag_mode_def mode_ok_def BIND_BEFORE_def BIND_AFTER_def BIND_REPLACE_def)

lemma set_unlink_all: "set (unlink_all to bs) \<subseteq> set bs"
  by (induction bs) auto

lemma add_bind_ok:
  assumes "flag_mode m" and "table_ok t"
  shows "table_ok (snd (add_bind frm to m t))"
proof -
  let ?b = "\<lparr>bind_from = frm, bind_to = to,
             bind_mode = m AND (BIND_BEFORE OR BIND_AFTER OR BIND_REPLACE)\<rparr>"
  let ?chain = "bindtab t (pathhash to)"
  define c where "c =
     (case find_bind t to of
        Some existing \<Rightarrow>
          if m AND BIND_BEFORE \<noteq> 0 then ?b # ?chain
          else if m AND BIND_AFTER \<noteq> 0 then ?chain @ [?b]
          else ?b # unlink_all to ?chain
      | None \<Rightarrow> ?b # ?chain)"
  have old: "\<forall>b\<in>set ?chain. mode_ok (bind_mode b)"
    using assms(2) in_entries [of _ t to] by (auto simp: table_ok_def list_all_iff)
  have c: "bindtab (snd (add_bind frm to m t)) = (bindtab t)(pathhash to := c)"
    by (simp add: add_bind_def Let_def c_def)
  have sub: "set c \<subseteq> insert ?b (set ?chain)"
    using set_unlink_all [of to ?chain] by (auto simp: c_def split: option.splits)
  have "\<forall>b\<in>set c. mode_ok (bind_mode b)"
    using sub old stored_mode_ok [OF assms(1)] by auto
  with assms(2) c show ?thesis by (rule table_ok_upd)
qed

lemma set_remove_walk: "set (fst (remove_walk frm to bs n)) \<subseteq> set bs"
proof (induction bs arbitrary: n)
  case Nil
  then show ?case by simp
next
  case (Cons b bs)
  show ?case
    using Cons.IH [of n] Cons.IH [of "n - 1"]
    by (auto split: prod.splits)
qed

lemma remove_bind_ok:
  assumes "table_ok t"
  shows "table_ok (snd (remove_bind frm to t))"
proof -
  let ?chain = "bindtab t (pathhash to)"
  define c where "c = fst (remove_walk frm to ?chain (nbinds t))"
  have old: "\<forall>b\<in>set ?chain. mode_ok (bind_mode b)"
    using assms in_entries [of _ t to] by (auto simp: table_ok_def list_all_iff)
  have c: "bindtab (snd (remove_bind frm to t)) = (bindtab t)(pathhash to := c)"
    by (simp add: remove_bind_def Let_def c_def split: prod.splits)
  have sub: "set c \<subseteq> set ?chain"
    unfolding c_def by (rule set_remove_walk)
  have "\<forall>b\<in>set c. mode_ok (bind_mode b)"
    using sub old by auto
  with assms c show ?thesis by (rule table_ok_upd)
qed

lemma flag_mode_replace: "flag_mode BIND_REPLACE"
  by (simp add: flag_mode_def BIND_REPLACE_def)

lemma tab_fold_fprint: "tab (fold (\<lambda>x. fprint fd (g x)) xs sh) = tab sh"
  by (induction xs arbitrary: sh) simp_all

lemma tab_fold_close: "tab (fold close_fd xs sh) = tab sh"
  by (induction xs arbitrary: sh) (simp_all add: close_fd_def)

lemma tab_srv_list: "tab (fst (srv_list os ents sh found)) = tab sh"
  by (induction ents arbitrary: sh found) (simp_all split: option.split)

lemma record_bind_ok:
  "flag_mode m \<Longrightarrow> table_ok (tab sh) \<Longrightarrow> table_ok (tab (record_bind os addr mp m sh))"
  by (simp add: record_bind_def add_bind_ok)

lemma try_system_mount_ok:
  assumes "flag_mode m" and "table_ok (tab sh)"
  shows "table_ok (tab (try_system_mount os addr mp m spec sh))"
proof -
  obtain st sh1 where r: "run_cmd os
      ([''mount''] @ (case spec of None \<Rightarrow> [] | Some s \<Rightarrow> [''-t'', s]) @ [addr, mp]) sh = (st, sh1)"
    by fastforce
  have "table_ok (tab sh1)" using run_cmd_tab [OF r] assms(2) by simp
  then show ?thesis using assms(1) r by (simp add: try_system_mount_def record_bind_ok)
qed

lemma b_bind_ok:
  assumes "table_ok (tab sh)"
  shows "table_ok (tab (fst (b_bind os av sh)))"
proof (cases "flag_args mode_flag (tl av) BIND_REPLACE")
  case (Inl c)
  then show ?thesis using assms by (simp add: b_bind_def)
next
  case (Inr r)
  obtain m args where r: "r = (m, args)" by (cases r) auto
  have m: "flag_mode m"
    using mode_flag_ok flag_mode_replace Inr [unfolded r] by (rule flag_args_inv)
  show ?thesis
    using assms Inr r add_bind_ok [OF m assms]
    by (auto simp: b_bind_def Let_def split: list.splits prod.splits)
qed

lemma b_addns_ok:
  "table_ok (tab sh) \<Longrightarrow> table_ok (tab (fst (b_addns os av sh)))"
  by (auto simp: b_addns_def b_bind_ok split: list.splits)

lemma b_mount_ok:
  assumes "table_ok (tab sh)"
  shows "table_ok (tab (fst (b_mount os av sh)))"
proof (cases "mount_args (tl av) BIND_REPLACE None")
  case (Inl e)
  then show ?thesis using assms by (cases e) (simp_all add: b_mount_def)
next
  case (Inr r)
  obtain m spec args where r: "r = (m, spec, args)" by (cases r) auto
  have m: "flag_mode m"
    using flag_mode_replace Inr [unfolded r] by (rule mount_args_inv)
  have ok: "run_cmd os' argv sh = (st, sh1) \<Longrightarrow> table_ok (tab sh1)" for os' argv st sh1
    using run_cmd_tab [of os' argv sh st sh1] assms by simp
  show ?thesis
    using assms Inr r
    by (auto simp: b_mount_def m ok record_bind_ok try_system_mount_ok
        split: list.splits prod.splits)
qed

lemma b_import_ok:
  assumes "table_ok (tab sh)"
  shows "table_ok (tab (fst (b_import os av sh)))"
proof (cases "flag_args mode_flag (tl av) BIND_REPLACE")
  case (Inl c)
  then show ?thesis using assms by (simp add: b_import_def)
next
  case (Inr r)
  obtain m args where r: "r = (m, args)" by (cases r) auto
  have m: "flag_mode m"
    using mode_flag_ok flag_mode_replace Inr [unfolded r] by (rule flag_args_inv)
  show ?thesis
  proof (cases "\<exists>host path rest. args = host # path # rest")
    case False
    then have "fst (b_import os av sh) =
        fail (RC os @ ''usage: import [-abc] host path [mountpoint]'' @ nl) sh"
      using Inr r by (auto simp: b_import_def split: list.splits)
    then show ?thesis using assms by simp
  next
    case True
    then obtain host path rest where args: "args = host # path # rest" by blast
    let ?mp = "case rest of [] \<Rightarrow> path | x # xs \<Rightarrow> x"
    let ?addr = "take 4095 (host @ '':'' @ path)"
    let ?sh0 = "if dashex os then
        fprint 2 (''import '' @ host @ '' '' @ path @ '' -> '' @ ?mp @ nl) sh else sh"
    obtain rc os1 where e: "ensuredir ?mp (m OR BIND_CREATE) os = (rc, os1)" by fastforce
    obtain st sh1 where r1: "run_cmd os1 [''sshfs'', ?addr, ?mp, ''-o'',
        ''reconnect,ServerAliveInterval=15,follow_symlinks''] ?sh0 = (st, sh1)" by fastforce
    obtain st2 sh2 where r2: "run_cmd os1 [''9pfuse'', ?addr, ?mp] sh1 = (st2, sh2)" by fastforce
    have s0: "table_ok (tab ?sh0)" using assms by simp
    have s1: "table_ok (tab sh1)" using run_cmd_tab [OF r1] s0 by simp
    have s2: "table_ok (tab sh2)" using run_cmd_tab [OF r2] s1 by simp
    have "fst (b_import os av sh) =
        (if rc \<noteq> 0 then
           fail (RC os @ ''import: cannot create '' @ ?mp @ '': '' @ strerror_os os ?mp @ nl) sh
         else if exited_ok st then record_bind os1 ?addr ?mp m sh1
         else if exited_ok st2 then record_bind os1 ?addr ?mp m sh2
         else fail (RC os @ ''import: could not import '' @ path @ '' from '' @ host @ nl) sh2)"
      using Inr r args e r1 r2
      by (simp add: b_import_def Let_def)
    then show ?thesis using assms s1 s2 m by (simp add: record_bind_ok)
  qed
qed

lemma b_unmount_ok:
  assumes "table_ok (tab sh)"
  shows "table_ok (tab (b_unmount os av sh))"
proof -
  have at: "table_ok (tab (unmount_at os frm mp sh))" for frm mp
  proof -
    obtain found t' where rb: "remove_bind frm mp (tab sh) = (found, t')" by fastforce
    have t': "table_ok t'" using remove_bind_ok [OF assms, of frm mp] rb by simp
    obtain st sh1 where r1: "run_cmd os [''umount'', mp] (sh\<lparr>tab := t'\<rparr>) = (st, sh1)"
      by fastforce
    have s1: "tab sh1 = t'" using run_cmd_tab [OF r1] by simp
    obtain st2 sh2 where r2: "run_cmd os [''fusermount'', ''-u'', mp] sh1 = (st2, sh2)"
      by fastforce
    have s2: "tab sh2 = t'" using run_cmd_tab [OF r2] s1 by simp
    show ?thesis
      by (simp add: unmount_at_def rb r1 r2 s1 s2 t')
  qed
  show ?thesis
    using assms by (auto simp: b_unmount_def at split: list.splits)
qed

lemma b_ns_tab: "tab (b_ns os av sh) = tab sh"
  by (auto simp: b_ns_def Let_def tab_fold_fprint tab_fold_fprint [where g = "\<lambda>x. x"]
      split: sum.splits option.splits)

lemma b_rfork_tab: "tab (b_rfork os av sh) = tab sh"
  by (auto simp: b_rfork_def Let_def tab_fold_close simp del: upt_rec_numeral
      split: sum.splits list.splits)

lemma b_srv_tab: "tab (fst (b_srv os av sh)) = tab sh"
proof -
  have l: "tab sh1 = tab sh"
    if "(case readdir_os os' SRV_DIR of None \<Rightarrow> (sh, False)
         | Some ents \<Rightarrow> srv_list os' ents sh False) = (sh1, found)"
    for os' sh1 found
  proof (cases "readdir_os os' SRV_DIR")
    case None
    then show ?thesis using that by simp
  next
    case (Some ents)
    then have "sh1 = fst (srv_list os' ents sh False)" using that by simp
    then show ?thesis by (simp add: tab_srv_list)
  qed
  show ?thesis
  proof (cases "flag_args srv_flag (tl av) False")
    case (Inl c)
    then show ?thesis by (simp add: b_srv_def)
  next
    case (Inr r)
    obtain remove args where r: "r = (remove, args)" by (cases r) auto
    obtain sh1 found where ls:
      "(case readdir_os (ensure_srvdir os) SRV_DIR of None \<Rightarrow> (sh, False)
        | Some ents \<Rightarrow> srv_list (ensure_srvdir os) ents sh False) = (sh1, found)"
      by fastforce
    show ?thesis
      using Inr r ls l [OF ls]
      by (cases args) (auto simp: b_srv_def Let_def split: option.splits)
  qed
qed

lemma b_cpu_tab: "b_cpu os av sh = Inr sh' \<Longrightarrow> tab sh' = tab sh"
  by (auto simp: b_cpu_def Let_def tab_fold_fprint
      split: sum.splits cpu_err.splits option.splits list.splits prod.splits if_splits
      dest: run_cmd_tab)

lemma builtin_ok:
  "table_ok (tab sh) \<Longrightarrow> builtin os av sh = Inr sh' \<Longrightarrow> table_ok (tab sh')"
  by (auto simp: builtin_def b_bind_ok b_mount_ok b_unmount_ok b_ns_tab b_import_ok b_srv_tab
      b_rfork_tab b_addns_ok split: if_splits dest: b_cpu_tab)

lemma run_ok:
  "table_ok (tab sh) \<Longrightarrow> run cmds sh = Inr sh' \<Longrightarrow> table_ok (tab sh')"
proof (induction cmds arbitrary: sh)
  case Nil
  then show ?case by simp
next
  case (Cons c cmds)
  obtain os av where c: "c = (os, av)" by (cases c) auto
  from Cons.prems(2) obtain sh1 where b: "builtin os av sh = Inr sh1"
    and r: "run cmds sh1 = Inr sh'"
    by (auto simp: c split: sum.splits)
  have "table_ok (tab sh1)" using Cons.prems(1) b by (rule builtin_ok)
  then show ?case using r by (rule Cons.IH)
qed

lemma table_ok_init: "table_ok dist_init"
  by (simp add: table_ok_def entries_dist_init)

lemma mode_ok_facts:
  "mode_ok m \<Longrightarrow> m \<in> {BIND_REPLACE, BIND_BEFORE, BIND_AFTER} \<and> m AND BIND_CREATE = 0
     \<and> mstr m \<in> {''replace'', ''before'', ''after''}"
  by (auto simp: mode_ok_def mstr_def BIND_REPLACE_def BIND_BEFORE_def BIND_AFTER_def BIND_CREATE_def)

lemma add_bind_masks_create:
  "bind_mode (fst (add_bind frm to m t)) AND BIND_CREATE = 0"
proof -
  have "(m AND 3) AND 4 = (0 :: cint)"
    by (simp add: and.assoc)
  then show ?thesis
    by (simp add: add_bind_def Let_def BIND_BEFORE_def BIND_AFTER_def BIND_REPLACE_def BIND_CREATE_def)
qed

text \<open>
  C9. In a shell started with \<open>dist_init\<close>, after any sequence of builtins, each in any
  environment and with any arguments, every entry of the bind table has a mode that is
  one of \<open>BIND_REPLACE\<close>, \<open>BIND_BEFORE\<close>, \<open>BIND_AFTER\<close>; the \<open>BIND_CREATE\<close> bit is not in
  it, and the mode name \<open>ns\<close> prints for it is \<open>replace\<close>, \<open>before\<close> or \<open>after\<close>.
  (\<open>add_bind\<close> itself masks the create bit for any mode it is given, lemma
  \<open>add_bind_masks_create\<close>.)
\<close>

theorem stored_modes:
  assumes "tab sh0 = dist_init" and "run cmds sh0 = Inr sh"
  shows "\<forall>b\<in>set (entries (tab sh)).
           bind_mode b \<in> {BIND_REPLACE, BIND_BEFORE, BIND_AFTER}
           \<and> bind_mode b AND BIND_CREATE = 0
           \<and> mstr (bind_mode b) \<in> {''replace'', ''before'', ''after''}"
proof -
  have "table_ok (tab sh0)" using assms(1) table_ok_init by simp
  then have "table_ok (tab sh)" using assms(2) by (rule run_ok)
  then show ?thesis
    using mode_ok_facts by (auto simp: table_ok_def list_all_iff)
qed

theorem stored_modes_witness:
  "tab shell_init = dist_init
   \<and> mount_args [''-bc'', ''srv'', ''/n/x''] BIND_REPLACE None
       = Inr (BIND_BEFORE OR BIND_CREATE, None, [''srv'', ''/n/x''])
   \<and> (\<exists>sh. run [(os_ok, [''mount'', ''-bc'', ''srv'', ''/n/x''])] shell_init = Inr sh
        \<and> \<lparr>bind_from = ''srv'', bind_to = ''/n/x'', bind_mode = BIND_BEFORE\<rparr>
            \<in> set (entries (tab sh))
        \<and> (\<forall>b\<in>set (entries (tab sh)).
              bind_mode b \<in> {BIND_REPLACE, BIND_BEFORE, BIND_AFTER}
              \<and> bind_mode b AND BIND_CREATE = 0
              \<and> mstr (bind_mode b) \<in> {''replace'', ''before'', ''after''}))"
proof -
  let ?av = "[''mount'', ''-bc'', ''srv'', ''/n/x'']"
  let ?sh = "fst (b_mount os_ok ?av shell_init)"
  let ?e = "\<lparr>bind_from = ''srv'', bind_to = ''/n/x'', bind_mode = BIND_BEFORE\<rparr>"
  have i: "tab shell_init = dist_init"
    by (simp add: shell_init_def)
  have p: "mount_args [''-bc'', ''srv'', ''/n/x''] BIND_REPLACE None
       = Inr (BIND_BEFORE OR BIND_CREATE, None, [''srv'', ''/n/x''])"
    by (simp add: mount_flag_def mode_flag_def BIND_REPLACE_def BIND_AFTER_def BIND_BEFORE_def
        BIND_CREATE_def)
  have r: "run [(os_ok, ?av)] shell_init = Inr ?sh"
    by (simp add: builtin_def)
  have t: "tab ?sh = snd (add_bind ''srv'' ''/n/x'' (BIND_BEFORE OR BIND_CREATE) dist_init)"
    by (simp add: b_mount_def try_system_mount_def mount_flag_def mode_flag_def BIND_REPLACE_def
        BIND_AFTER_def ensuredir_def isdir_def os_ok_def os_bare_def run_cmd_def
        exited_ok_def WIFEXITED_def WEXITSTATUS_def record_bind_def cleanpath_def
        strip_slashes.simps shell_init_def BIND_CREATE_def BIND_BEFORE_def)
  have "?e \<in> set (bindtab (tab ?sh) (pathhash ''/n/x''))"
    unfolding t
    by (simp add: add_bind_def find_bind_def dist_init_def Let_def BIND_BEFORE_def BIND_AFTER_def
        BIND_REPLACE_def BIND_CREATE_def)
  then have e: "?e \<in> set (entries (tab ?sh))"
    by (rule in_entries)
  from stored_modes [OF i r] e r i p show ?thesis by blast
qed

end
